theory Spec2Isabelle
  imports Complex_Main "HOL-Library.Monad_Syntax" "HOL-Library.Product_Lexorder"
begin

section \<open>Text primitives of the Python runtime\<close>

text \<open>
  The three scripts exchange samples as dictionaries with the two string fields
  \<open>timestamp\<close> and \<open>play_count\<close>. Strings are modelled as ASCII text. The library
  calls the scripts make on them (\<open>str.strip\<close>, \<open>str.replace\<close>, \<open>int\<close>, \<open>str\<close>,
  \<open>datetime.strptime\<close>, \<open>datetime.strftime\<close>) are written out below for exactly the
  arguments the scripts pass.
\<close>

datatype error = ValueError | OverflowError

definition is_digit :: "char \<Rightarrow> bool" where
  "is_digit c = (48 \<le> (of_char c :: nat) \<and> (of_char c :: nat) \<le> 57)"

definition digit_val :: "char \<Rightarrow> nat" where
  "digit_val c = of_char c - 48"

definition digit_char :: "nat \<Rightarrow> char" where
  "digit_char n = char_of (48 + n)"

text \<open>\<open>str.isspace\<close> on ASCII: TAB, LF, VT, FF, CR, FS, GS, RS, US and the blank. The
  regular expression class \<open>\s\<close> of \<open>_strptime\<close> is the same set.\<close>

definition is_space :: "char \<Rightarrow> bool" where
  "is_space c = ((9 \<le> (of_char c :: nat) \<and> (of_char c :: nat) \<le> 13)
     \<or> (28 \<le> (of_char c :: nat) \<and> (of_char c :: nat) \<le> 32))"

text \<open>The blanks \<open>int\<close> skips around an ASCII literal (C's \<open>isspace\<close>).\<close>

definition is_c_space :: "char \<Rightarrow> bool" where
  "is_c_space c = ((9 \<le> (of_char c :: nat) \<and> (of_char c :: nat) \<le> 13) \<or> (of_char c :: nat) = 32)"

definition strip_by :: "(char \<Rightarrow> bool) \<Rightarrow> string \<Rightarrow> string" where
  "strip_by p s = rev (dropWhile p (rev (dropWhile p s)))"

definition strip :: "string \<Rightarrow> string" where
  "strip s = strip_by is_space s"

text \<open>\<open>s.replace(' IST', '')\<close>: every occurrence, left to right, without rescanning.\<close>

fun remove_IST :: "string \<Rightarrow> string" where
  "remove_IST (a # b # c # d # r) =
     (if [a, b, c, d] = '' IST'' then remove_IST r else a # remove_IST (b # c # d # r))"
| "remove_IST s = s"

definition digits_val :: "string \<Rightarrow> nat" where
  "digits_val s = foldl (\<lambda>acc c. 10 * acc + digit_val c) 0 (filter is_digit s)"

text \<open>The body of a decimal literal: digits, with single underscores between digits.\<close>

fun int_body_ok :: "string \<Rightarrow> bool" where
  "int_body_ok [] = False"
| "int_body_ok [c] = is_digit c"
| "int_body_ok (c # d # r) =
     (is_digit c \<and> (if d = CHR ''_'' then int_body_ok r else int_body_ok (d # r)))"

text \<open>\<open>int(s)\<close> for a string: \<open>None\<close> stands for the \<open>ValueError\<close>. The interpreter's
  optional cap on the number of digits is not modelled.\<close>

definition py_int :: "string \<Rightarrow> int option" where
  "py_int s =
     (case strip_by is_c_space s of
        [] \<Rightarrow> None
      | c # r \<Rightarrow>
          if c = CHR ''-'' then (if int_body_ok r then Some (- int (digits_val r)) else None)
          else if c = CHR ''+'' then (if int_body_ok r then Some (int (digits_val r)) else None)
          else if int_body_ok (c # r) then Some (int (digits_val (c # r))) else None)"

text \<open>\<open>str(n)\<close> for a non-negative integer.\<close>

fun str_nat :: "nat \<Rightarrow> string" where
  "str_nat n = (if n < 10 then [digit_char n] else str_nat (n div 10) @ [digit_char (n mod 10)])"

declare str_nat.simps [simp del]

section \<open>Civil date and time\<close>

record datetime =
  year :: nat
  month :: nat
  day :: nat
  hour :: nat
  minute :: nat
  second :: nat
  microsecond :: nat

definition is_leap :: "nat \<Rightarrow> bool" where
  "is_leap y = (y mod 4 = 0 \<and> (y mod 100 \<noteq> 0 \<or> y mod 400 = 0))"

definition days_in_month :: "nat \<Rightarrow> nat \<Rightarrow> nat" where
  "days_in_month y m =
     (if m = 2 then (if is_leap y then 29 else 28)
      else if m = 4 \<or> m = 6 \<or> m = 9 \<or> m = 11 then 30 else 31)"

definition days_before_year :: "nat \<Rightarrow> int" where
  "days_before_year y =
     (let p = int y - 1 in p * 365 + p div 4 - p div 100 + p div 400)"

definition days_before_month :: "nat \<Rightarrow> nat \<Rightarrow> int" where
  "days_before_month y m = int (sum_list (map (days_in_month y) [1..<m]))"

text \<open>\<open>date.toordinal\<close>: day 1 is 0001-01-01.\<close>

definition ymd2ord :: "nat \<Rightarrow> nat \<Rightarrow> nat \<Rightarrow> int" where
  "ymd2ord y m d = days_before_year y + days_before_month y m + int d"

text \<open>The fields a \<open>datetime\<close> object accepts.\<close>

definition valid_datetime :: "datetime \<Rightarrow> bool" where
  "valid_datetime dt =
     (1 \<le> year dt \<and> year dt \<le> 9999 \<and> 1 \<le> month dt \<and> month dt \<le> 12
      \<and> 1 \<le> day dt \<and> day dt \<le> days_in_month (year dt) (month dt)
      \<and> hour dt \<le> 23 \<and> minute dt \<le> 59 \<and> second dt \<le> 59 \<and> microsecond dt \<le> 999999)"

text \<open>Position of a naive datetime on the time line, in seconds and in microseconds.
  The difference of two naive datetimes is the difference of these numbers.\<close>

definition dt_seconds :: "datetime \<Rightarrow> int" where
  "dt_seconds dt =
     ymd2ord (year dt) (month dt) (day dt) * 86400
       + int (hour dt) * 3600 + int (minute dt) * 60 + int (second dt)"

definition dt_micros :: "datetime \<Rightarrow> int" where
  "dt_micros dt = dt_seconds dt * 1000000 + int (microsecond dt)"

text \<open>Two datetimes compare as the tuples of their fields, in lexicographic order.\<close>

definition dt_fields :: "datetime \<Rightarrow> nat \<times> nat \<times> nat \<times> nat \<times> nat \<times> nat \<times> nat" where
  "dt_fields dt = (year dt, month dt, day dt, hour dt, minute dt, second dt, microsecond dt)"

subsection \<open>\<open>datetime.strptime(s, '%Y-%m-%d %H:%M:%S')\<close>\<close>

text \<open>
  \<open>_strptime\<close> turns the format into the regular expression
  \<^verbatim>\<open>(\d\d\d\d)-(1[0-2]|0[1-9]|[1-9])-(3[0-1]|[1-2]\d|0[1-9]|[1-9]| [1-9])\s+\<close>
  \<^verbatim>\<open>(2[0-3]|[0-1]\d|\d):([0-5]\d|\d):(6[0-1]|[0-5]\d|\d)\<close>,
  matches a prefix of the text, refuses unconverted trailing text, and builds the date
  and the datetime, which refuse year 0, a day the month does not have and a second
  above 59. Each numeric group is followed by a separator that is no digit (or by the
  end of the match), so the first alternative that matches decides the group and
  backtracking never finds another parse.
\<close>

fun p_year :: "string \<Rightarrow> (nat \<times> string) option" where
  "p_year (a # b # c # d # r) =
     (if is_digit a \<and> is_digit b \<and> is_digit c \<and> is_digit d
      then Some (1000 * digit_val a + 100 * digit_val b + 10 * digit_val c + digit_val d, r)
      else None)"
| "p_year s = None"

fun p_lit :: "char \<Rightarrow> string \<Rightarrow> string option" where
  "p_lit c (x # r) = (if x = c then Some r else None)"
| "p_lit c [] = None"

text \<open>A group of two digits accepted by \<open>ok2\<close>, else of one digit accepted by \<open>ok1\<close>.\<close>

fun p_field :: "(nat \<Rightarrow> nat \<Rightarrow> bool) \<Rightarrow> (nat \<Rightarrow> bool) \<Rightarrow> string \<Rightarrow> (nat \<times> string) option" where
  "p_field ok2 ok1 (a # b # r) =
     (if is_digit a \<and> is_digit b \<and> ok2 (digit_val a) (digit_val b)
      then Some (10 * digit_val a + digit_val b, r)
      else if is_digit a \<and> ok1 (digit_val a) then Some (digit_val a, b # r)
      else None)"
| "p_field ok2 ok1 [a] = (if is_digit a \<and> ok1 (digit_val a) then Some (digit_val a, []) else None)"
| "p_field ok2 ok1 [] = None"

definition p_month :: "string \<Rightarrow> (nat \<times> string) option" where
  "p_month = p_field (\<lambda>a b. (a = 1 \<and> b \<le> 2) \<or> (a = 0 \<and> 1 \<le> b)) (\<lambda>a. 1 \<le> a)"

definition p_day :: "string \<Rightarrow> (nat \<times> string) option" where
  "p_day s =
     (case p_field (\<lambda>a b. (a = 3 \<and> b \<le> 1) \<or> a = 1 \<or> a = 2 \<or> (a = 0 \<and> 1 \<le> b)) (\<lambda>a. 1 \<le> a) s of
        Some res \<Rightarrow> Some res
      | None \<Rightarrow>
          (case s of
             x # a # r \<Rightarrow> if x = CHR '' '' \<and> is_digit a \<and> 1 \<le> digit_val a
                          then Some (digit_val a, r) else None
           | _ \<Rightarrow> None))"

definition p_spaces :: "string \<Rightarrow> string option" where
  "p_spaces s = (case s of [] \<Rightarrow> None | c # r \<Rightarrow> if is_space c then Some (dropWhile is_space r) else None)"

definition p_hour :: "string \<Rightarrow> (nat \<times> string) option" where
  "p_hour = p_field (\<lambda>a b. (a = 2 \<and> b \<le> 3) \<or> a \<le> 1) (\<lambda>a. True)"

definition p_minute :: "string \<Rightarrow> (nat \<times> string) option" where
  "p_minute = p_field (\<lambda>a b. a \<le> 5) (\<lambda>a. True)"

definition p_second :: "string \<Rightarrow> (nat \<times> string) option" where
  "p_second = p_field (\<lambda>a b. (a = 6 \<and> b \<le> 1) \<or> a \<le> 5) (\<lambda>a. True)"

definition strptime :: "string \<Rightarrow> datetime option" where
  "strptime s =
     do {
       (y, r1) \<leftarrow> p_year s;
       r2 \<leftarrow> p_lit CHR ''-'' r1;
       (m, r3) \<leftarrow> p_month r2;
       r4 \<leftarrow> p_lit CHR ''-'' r3;
       (d, r5) \<leftarrow> p_day r4;
       r6 \<leftarrow> p_spaces r5;
       (H, r7) \<leftarrow> p_hour r6;
       r8 \<leftarrow> p_lit CHR '':'' r7;
       (M, r9) \<leftarrow> p_minute r8;
       r10 \<leftarrow> p_lit CHR '':'' r9;
       (S, r11) \<leftarrow> p_second r10;
       if r11 = [] \<and> 1 \<le> y \<and> d \<le> days_in_month y m \<and> S \<le> 59
       then Some \<lparr>year = y, month = m, day = d, hour = H, minute = M, second = S, microsecond = 0\<rparr>
       else None
     }"

text \<open>The expression all three scripts parse a stored timestamp with:
  \<open>datetime.strptime(ts.replace(' IST','').strip(), '%Y-%m-%d %H:%M:%S')\<close>.\<close>

definition clean_ts :: "string \<Rightarrow> string" where
  "clean_ts ts = strip (remove_IST ts)"

subsection \<open>\<open>strftime('%Y-%m-%d %H:%M:%S IST')\<close>\<close>

definition pad2 :: "nat \<Rightarrow> string" where
  "pad2 n = [digit_char (n div 10), digit_char (n mod 10)]"

text \<open>\<open>%Y\<close> prints the year without padding (the C library's behaviour on the
  platform the scripts run on); from year 1000 on that is four digits.\<close>

definition strftime_IST :: "datetime \<Rightarrow> string" where
  "strftime_IST dt =
     str_nat (year dt) @ ''-'' @ pad2 (month dt) @ ''-'' @ pad2 (day dt) @ '' ''
       @ pad2 (hour dt) @ '':'' @ pad2 (minute dt) @ '':'' @ pad2 (second dt) @ '' IST''"

section \<open>The hourly updater (\<open>update_counts.py\<close>)\<close>

record entry =
  timestamp :: string
  play_count :: string

text \<open>
  The history file of one song, as \<open>load_json\<close> can find it: absent, present but not
  readable as JSON (with its raw text), or holding the list of samples that \<open>save_json\<close>
  and \<open>write_json\<close> write. \<open>save_json\<close> writes a temporary file and renames it over the
  target, so a completed call leaves exactly the new list; a failing write is outside
  the model.
\<close>

datatype store = Missing | Unreadable string | Stored "entry list"

definition load_json :: "store \<Rightarrow> entry list" where
  "load_json f = (case f of Missing \<Rightarrow> [] | Unreadable raw \<Rightarrow> [] | Stored data \<Rightarrow> data)"

definition save_json :: "entry list \<Rightarrow> store" where
  "save_json data = Stored data"

definition safe_parse_ts :: "string \<Rightarrow> datetime option" where
  "safe_parse_ts ts = strptime (clean_ts ts)"

definition should_append_hourly :: "entry list \<Rightarrow> datetime \<Rightarrow> bool" where
  "should_append_hourly existing now_dt =
     (if existing = [] then True
      else case strptime (clean_ts (timestamp (last existing))) of
             None \<Rightarrow> True
           | Some last_dt \<Rightarrow>
               (year now_dt, month now_dt, day now_dt, hour now_dt)
                 \<noteq> (year last_dt, month last_dt, day last_dt, hour last_dt))"

text \<open>
  \<open>update_song\<close> for one song: \<open>f\<close> is the song's history file, \<open>count\<close> what
  \<open>fetch_play_count\<close> returned (a number read from digits, or nothing) and \<open>now_dt\<close> the
  clock reading \<open>datetime.now(IST).replace(tzinfo=None)\<close>. The result is the returned flag
  and the file afterwards.
\<close>

definition update_song :: "store \<Rightarrow> nat option \<Rightarrow> datetime \<Rightarrow> bool \<times> store" where
  "update_song f count now_dt =
     (let data = load_json f in
      case count of
        None \<Rightarrow> (False, f)
      | Some c \<Rightarrow>
          if data \<noteq> [] \<and> (case py_int (play_count (last data)) of
                              None \<Rightarrow> False
                            | Some v \<Rightarrow> int c < v)
          then (False, f)
          else if should_append_hourly data now_dt
          then (True, save_json (data @ [\<lparr>timestamp = strftime_IST now_dt, play_count = str_nat c\<rparr>]))
          else (False, f))"

text \<open>Successive runs of the updater on one song, each with its fetch result and clock.\<close>

fun run_updates :: "store \<Rightarrow> (nat option \<times> datetime) list \<Rightarrow> store" where
  "run_updates f [] = f"
| "run_updates f ((count, now_dt) # feed) = run_updates (snd (update_song f count now_dt)) feed"

subsection \<open>Summary\<close>

text \<open>
  \<open>find_reference\<close> works on zone-aware datetimes and on float seconds. Two facts of the
  libraries it calls are parameters of the model:
  \<^item> \<open>localize\<close> stands for \<open>IST.localize\<close> of pytz on a parsed timestamp: the UTC
    offset, in seconds, of the tzinfo it attaches (the zone's history decides it from
    the date), or the exception it raises;
  \<^item> \<open>total_seconds\<close> stands for \<open>timedelta.total_seconds\<close> on a difference given in
    microseconds: the float nearest to the microseconds divided by \<open>10 ^ 6\<close>, as a real
    number.

  A reading of the clock, \<open>datetime.now(IST)\<close>, is its wall-clock fields and the UTC
  offset, in seconds, of its tzinfo.
\<close>

record clock_reading =
  wall :: datetime
  utc_offset :: int

text \<open>The first and the last microsecond a \<open>datetime\<close> can hold.\<close>

definition min_micros :: int where
  "min_micros = dt_micros \<lparr>year = 1, month = 1, day = 1, hour = 0, minute = 0, second = 0,
                            microsecond = 0\<rparr>"

definition max_micros :: int where
  "max_micros = dt_micros \<lparr>year = 9999, month = 12, day = 31, hour = 23, minute = 59, second = 59,
                            microsecond = 999999\<rparr>"

text \<open>
  \<open>timedelta(hours=h)\<close>, in microseconds: the constructor raises \<open>OverflowError\<close> when the
  whole days of the duration exceed 999999999 in magnitude.
\<close>

definition timedelta_hours :: "int \<Rightarrow> error + int" where
  "timedelta_hours h =
     (if - 999999999 \<le> h div 24 \<and> h div 24 \<le> 999999999 then Inr (h * 3600000000)
      else Inl OverflowError)"

text \<open>
  \<open>datetime.now(IST) - timedelta(hours=hours_back)\<close>: the subtraction works on the
  wall-clock fields and keeps the tzinfo. The result is given by its wall-clock position
  in microseconds; the subtraction raises \<open>OverflowError\<close> when the result would leave
  the years 1 to 9999.
\<close>

definition target_time :: "clock_reading \<Rightarrow> int \<Rightarrow> error + int" where
  "target_time now hours_back =
     (case timedelta_hours hours_back of
        Inl err \<Rightarrow> Inl err
      | Inr delta \<Rightarrow>
          (let w = dt_micros (wall now) - delta
           in if min_micros \<le> w \<and> w \<le> max_micros then Inr w else Inl OverflowError))"

text \<open>
  The scan of \<open>find_reference\<close>. \<open>target_utc\<close> is the target as an instant: its wall-clock
  position less the offset of the clock reading. The difference of two zone-aware
  datetimes is the difference of their instants, an exact number of microseconds;
  \<open>diff\<close> is the absolute value of its float seconds. \<open>min_diff\<close> starts at infinity,
  written \<open>None\<close>.
\<close>

fun find_loop :: "(datetime \<Rightarrow> error + int) \<Rightarrow> (int \<Rightarrow> real) \<Rightarrow> entry list \<Rightarrow> int
    \<Rightarrow> entry option \<Rightarrow> real option \<Rightarrow> error + entry option" where
  "find_loop localize total_seconds [] target_utc closest min_diff = Inr closest"
| "find_loop localize total_seconds (e # es) target_utc closest min_diff =
     (case safe_parse_ts (timestamp e) of
        None \<Rightarrow> find_loop localize total_seconds es target_utc closest min_diff
      | Some t \<Rightarrow>
          (case localize t of
             Inl err \<Rightarrow> Inl err
           | Inr off \<Rightarrow>
               (let diff = \<bar>total_seconds (dt_micros t - off * 1000000 - target_utc)\<bar> in
                if (case min_diff of None \<Rightarrow> True | Some m \<Rightarrow> diff < m)
                then find_loop localize total_seconds es target_utc (Some e) (Some diff)
                else find_loop localize total_seconds es target_utc closest min_diff)))"

definition find_reference :: "(datetime \<Rightarrow> error + int) \<Rightarrow> (int \<Rightarrow> real) \<Rightarrow> entry list
    \<Rightarrow> clock_reading \<Rightarrow> int \<Rightarrow> error + entry option" where
  "find_reference localize total_seconds entries now hours_back =
     (case target_time now hours_back of
        Inl err \<Rightarrow> Inl err
      | Inr w \<Rightarrow>
          find_loop localize total_seconds entries (w - utc_offset now * 1000000) None None)"

record song_summary =
  current :: int
  previous_hour :: "int option"
  hour_increase :: "int option"
  previous_24h :: "int option"
  day_increase :: "int option"
  entries :: nat

text \<open>\<open>curr_count - int(ref['play_count'])\<close> under \<open>try\<close>/\<open>except: pass\<close>.\<close>

definition increase_over :: "int \<Rightarrow> entry option \<Rightarrow> int option" where
  "increase_over curr_count reference =
     (case reference of
        None \<Rightarrow> None
      | Some r \<Rightarrow> (case py_int (play_count r) of None \<Rightarrow> None | Some v \<Rightarrow> Some (curr_count - v)))"

text \<open>\<open>int(ref['play_count']) if ref else None\<close>, which is not guarded.\<close>

definition previous_of :: "entry option \<Rightarrow> error + int option" where
  "previous_of reference =
     (case reference of
        None \<Rightarrow> Inr None
      | Some r \<Rightarrow> (case py_int (play_count r) of None \<Rightarrow> Inl ValueError | Some v \<Rightarrow> Inr (Some v)))"

text \<open>
  The body of the loop of \<open>build_summary\<close> for one song: \<open>None\<close> when the song is skipped
  (\<open>continue\<close>), otherwise its record in the summary. \<open>now1\<close> and \<open>now2\<close> are the clock
  readings of the two calls of \<open>find_reference\<close>, whose exceptions are not caught.
\<close>

definition summarise_song :: "(datetime \<Rightarrow> error + int) \<Rightarrow> (int \<Rightarrow> real) \<Rightarrow> store
    \<Rightarrow> clock_reading \<Rightarrow> clock_reading \<Rightarrow> error + song_summary option" where
  "summarise_song localize total_seconds f now1 now2 =
     (let data = load_json f in
      if data = [] then Inr None
      else case py_int (play_count (last data)) of
        None \<Rightarrow> Inl ValueError
      | Some curr_count \<Rightarrow>
          (case find_reference localize total_seconds data now1 1 of
             Inl err \<Rightarrow> Inl err
           | Inr prev_hour \<Rightarrow>
               (case find_reference localize total_seconds data now2 24 of
                  Inl err \<Rightarrow> Inl err
                | Inr prev_day \<Rightarrow>
                    (let hour_inc = increase_over curr_count prev_hour;
                         day_inc = increase_over curr_count prev_day
                     in case previous_of prev_hour of
                          Inl err \<Rightarrow> Inl err
                        | Inr ph \<Rightarrow>
                            (case previous_of prev_day of
                               Inl err \<Rightarrow> Inl err
                             | Inr pd \<Rightarrow>
                                 Inr (Some \<lparr>current = curr_count, previous_hour = ph,
                                            hour_increase = hour_inc, previous_24h = pd,
                                            day_increase = day_inc, entries = length data\<rparr>))))))"

text \<open>\<open>build_summary\<close> over the catalogue; the first uncaught exception ends it.\<close>

fun build_summary :: "(datetime \<Rightarrow> error + int) \<Rightarrow> (int \<Rightarrow> real)
    \<Rightarrow> (string \<times> store \<times> clock_reading \<times> clock_reading) list
    \<Rightarrow> error + (string \<times> song_summary) list" where
  "build_summary localize total_seconds [] = Inr []"
| "build_summary localize total_seconds ((sid, f, now1, now2) # songs) =
     (case summarise_song localize total_seconds f now1 now2 of
        Inl err \<Rightarrow> Inl err
      | Inr this \<Rightarrow>
          (case build_summary localize total_seconds songs of
             Inl err \<Rightarrow> Inl err
           | Inr rest \<Rightarrow> Inr ((case this of None \<Rightarrow> [] | Some s \<Rightarrow> [(sid, s)]) @ rest)))"

section \<open>The converter (\<open>convert_csv_to_json.py\<close>)\<close>

definition parse_ts :: "string \<Rightarrow> error + datetime" where
  "parse_ts ts = (case strptime (clean_ts ts) of None \<Rightarrow> Inl ValueError | Some dt \<Rightarrow> Inr dt)"

text \<open>The key \<open>sorted\<close> orders by, for an entry whose timestamp parses: the parsed
  datetime, compared field by field.\<close>

definition ts_order :: "entry \<Rightarrow> nat \<times> nat \<times> nat \<times> nat \<times> nat \<times> nat \<times> nat" where
  "ts_order e =
     (case parse_ts (timestamp e) of Inr dt \<Rightarrow> dt_fields dt | Inl err \<Rightarrow> (0, 0, 0, 0, 0, 0, 0))"

text \<open>The time of an entry whose timestamp parses, in seconds.\<close>

definition ts_key :: "entry \<Rightarrow> int" where
  "ts_key e = (case parse_ts (timestamp e) of Inr dt \<Rightarrow> dt_seconds dt | Inl err \<Rightarrow> 0)"

text \<open>
  The scan of \<open>filter_hour_gaps\<close> over the sorted entries, with the list kept so far and
  the time of the last kept entry. \<open>diff\<close> is a float of minutes in the source; for the
  whole seconds that parsed timestamps differ by, \<open>diff >= gap_minutes - 5\<close> holds
  exactly when the seconds reach \<open>60 * (gap_minutes - 5)\<close>.
\<close>

fun gap_loop :: "entry list \<Rightarrow> int \<Rightarrow> entry list \<Rightarrow> datetime option \<Rightarrow> error + entry list" where
  "gap_loop [] gap_minutes filtered last_kept_time = Inr filtered"
| "gap_loop (e # es) gap_minutes filtered last_kept_time =
     (case parse_ts (timestamp e) of
        Inl err \<Rightarrow> Inl err
      | Inr current_time \<Rightarrow>
          (case last_kept_time of
             None \<Rightarrow> gap_loop es gap_minutes (filtered @ [e]) (Some current_time)
           | Some kept_time \<Rightarrow>
               if dt_seconds current_time - dt_seconds kept_time \<ge> 60 * (gap_minutes - 5)
               then gap_loop es gap_minutes (filtered @ [e]) (Some current_time)
               else gap_loop es gap_minutes filtered last_kept_time))"

text \<open>\<open>sorted\<close> computes the key of every entry first (a timestamp that does not
  parse raises there) and is stable.\<close>

definition filter_hour_gaps :: "entry list \<Rightarrow> int \<Rightarrow> error + entry list" where
  "filter_hour_gaps es gap_minutes =
     (if es = [] then Inr []
      else if list_ex (\<lambda>e. strptime (clean_ts (timestamp e)) = None) es then Inl ValueError
      else
        (let entries_sorted = sort_key ts_order es in
         case gap_loop entries_sorted gap_minutes [] None of
           Inl err \<Rightarrow> Inl err
         | Inr filtered \<Rightarrow>
             if filtered \<noteq> [] \<and> timestamp (last filtered) \<noteq> timestamp (last entries_sorted)
             then Inr (filtered @ [last entries_sorted])
             else Inr filtered))"

section \<open>The polling thread (\<open>app.py\<close>)\<close>

text \<open>
  In \<open>app.py\<close> the samples of a song live in \<open>song['entries']\<close> and are appended to a
  CSV file. A sample loaded from the file by pandas carries its count as a number, one
  appended by the thread carries the fetched text.
\<close>

datatype cell = Num int | Txt string

record app_entry =
  a_timestamp :: string
  a_play_count :: cell

record app_song =
  song_entries :: "app_entry list"
  csv_rows :: "(string \<times> string) list"

text \<open>The body of the loop over the songs in \<open>update_play_count\<close>, for one song:
  \<open>fetched\<close> is what \<open>fetch_play_count\<close> of \<open>app.py\<close> returned (the digits, or nothing).\<close>

definition poll_song :: "app_song \<Rightarrow> string option \<Rightarrow> datetime \<Rightarrow> app_song" where
  "poll_song song fetched current_time =
     (case fetched of
        None \<Rightarrow> song
      | Some pc \<Rightarrow>
          if pc = [] then song
          else
            (let is_new_entry =
                   (if song_entries song \<noteq> []
                    then a_play_count (last (song_entries song)) \<noteq> Txt pc
                    else True)
             in if is_new_entry
                then song\<lparr>song_entries := song_entries song
                              @ [\<lparr>a_timestamp = strftime_IST current_time, a_play_count = Txt pc\<rparr>],
                          csv_rows := csv_rows song @ [(strftime_IST current_time, pc)]\<rparr>
                else song))"

text \<open>One turn of the \<open>while True\<close> loop: the poll is due when none has completed yet or
  900 seconds have passed since the last one.\<close>

definition update_play_count :: "app_song \<times> datetime option \<Rightarrow> string option \<Rightarrow> datetime
    \<Rightarrow> app_song \<times> datetime option" where
  "update_play_count st fetched current_time =
     (case st of (song, last_update_time) \<Rightarrow>
        if (case last_update_time of
              None \<Rightarrow> True
            | Some t \<Rightarrow> dt_micros current_time - dt_micros t \<ge> 900000000)
        then (poll_song song fetched current_time, Some current_time)
        else (song, last_update_time))"

section \<open>Notions the properties are stated with\<close>

text \<open>The stored play counts as numbers (\<open>None\<close> when one does not read as an integer),
  a series whose numbers never fall, and the calendar hour that \<open>should_append_hourly\<close>
  compares.\<close>

fun values_of :: "entry list \<Rightarrow> int list option" where
  "values_of [] = Some []"
| "values_of (e # es) =
     (case py_int (play_count e) of
        None \<Rightarrow> None
      | Some v \<Rightarrow> (case values_of es of None \<Rightarrow> None | Some vs \<Rightarrow> Some (v # vs)))"

definition non_decreasing :: "entry list \<Rightarrow> bool" where
  "non_decreasing data = (case values_of data of None \<Rightarrow> False | Some vs \<Rightarrow> sorted vs)"

definition hour_bucket :: "datetime \<Rightarrow> nat \<times> nat \<times> nat \<times> nat" where
  "hour_bucket dt = (year dt, month dt, day dt, hour dt)"

text \<open>The distance of an entry from a target: from its parsed timestamp to the
  wall-clock position of the target, in exact microseconds; none when the timestamp does
  not parse.\<close>

definition ts_distance :: "int \<Rightarrow> entry \<Rightarrow> int option" where
  "ts_distance target_wall e =
     (case safe_parse_ts (timestamp e) of
        None \<Rightarrow> None
      | Some t \<Rightarrow> Some \<bar>dt_micros t - target_wall\<bar>)"

text \<open>The same distance as the float seconds that \<open>find_reference\<close> compares.\<close>

definition float_distance :: "(int \<Rightarrow> real) \<Rightarrow> int \<Rightarrow> entry \<Rightarrow> real option" where
  "float_distance total_seconds target_wall e =
     (case safe_parse_ts (timestamp e) of
        None \<Rightarrow> None
      | Some t \<Rightarrow> Some \<bar>total_seconds (dt_micros t - target_wall)\<bar>)"

text \<open>A scan that keeps the first entry of strictly smallest distance, for any measure
  of distance; \<open>find_loop_nearest\<close> below shows that the scan of \<open>find_reference\<close> is this
  scan when no localization raises.\<close>

fun nearest_loop :: "(entry \<Rightarrow> 'd :: linorder option) \<Rightarrow> entry list \<Rightarrow> entry option
    \<Rightarrow> 'd option \<Rightarrow> entry option" where
  "nearest_loop distance [] closest min_diff = closest"
| "nearest_loop distance (e # es) closest min_diff =
     (case distance e of
        None \<Rightarrow> nearest_loop distance es closest min_diff
      | Some d \<Rightarrow>
          if (case min_diff of None \<Rightarrow> True | Some m \<Rightarrow> d < m)
          then nearest_loop distance es (Some e) (Some d)
          else nearest_loop distance es closest min_diff)"

text \<open>
  The scan of \<open>filter_hour_gaps\<close> on entries whose timestamps all parse, as a function
  of the threshold in seconds and the key of the last kept entry, and the final step
  that appends the newest entry. \<open>gap_loop_kept\<close> and \<open>filter_hour_gaps_parsed\<close> below
  show that the source's loop computes exactly these.
\<close>

fun kept :: "int \<Rightarrow> int option \<Rightarrow> entry list \<Rightarrow> entry list" where
  "kept threshold last_key [] = []"
| "kept threshold last_key (e # es) =
     (if (case last_key of None \<Rightarrow> True | Some k \<Rightarrow> ts_key e - k \<ge> threshold)
      then e # kept threshold (Some (ts_key e)) es
      else kept threshold last_key es)"

definition force_last :: "entry list \<Rightarrow> entry list \<Rightarrow> entry list" where
  "force_last entries_sorted filtered =
     (if filtered \<noteq> [] \<and> timestamp (last filtered) \<noteq> timestamp (last entries_sorted)
      then filtered @ [last entries_sorted] else filtered)"

section \<open>Sample data\<close>

text \<open>The readings of the end-to-end scenario: a first sample of 500 at 10:00,
  polls at 10:05 and at 11:10 of the same day.\<close>

definition ex_t1 :: datetime where
  "ex_t1 = \<lparr>year = 2024, month = 1, day = 1, hour = 10, minute = 0, second = 0, microsecond = 0\<rparr>"

definition ex_t2 :: datetime where
  "ex_t2 = \<lparr>year = 2024, month = 1, day = 1, hour = 10, minute = 5, second = 0, microsecond = 0\<rparr>"

definition ex_t3 :: datetime where
  "ex_t3 = \<lparr>year = 2024, month = 1, day = 1, hour = 11, minute = 10, second = 0, microsecond = 0\<rparr>"

definition ex_first :: entry where
  "ex_first = \<lparr>timestamp = ''2024-01-01 10:00:00 IST'', play_count = ''500''\<rparr>"

text \<open>A sample whose count is not a number, one whose timestamp is in another format,
  the text of a truncated history file, and a reading at noon.\<close>

definition ex_garbled :: entry where
  "ex_garbled = \<lparr>timestamp = ''2024-01-01 11:00:00 IST'', play_count = ''n/a''\<rparr>"

definition ex_iso :: entry where
  "ex_iso = \<lparr>timestamp = ''2024-01-01T10:00:00'', play_count = ''500''\<rparr>"

definition ex_raw :: string where
  "ex_raw = ''[{timestamp: 2024-01-01 10:00:00 IST, play_count: 500},''"

definition ex_t4 :: datetime where
  "ex_t4 = \<lparr>year = 2024, month = 1, day = 1, hour = 12, minute = 0, second = 0, microsecond = 0\<rparr>"

text \<open>A reading at 10:20 of the same day, and a song of \<open>app.py\<close> with no samples yet.\<close>

definition ex_t5 :: datetime where
  "ex_t5 = \<lparr>year = 2024, month = 1, day = 1, hour = 10, minute = 20, second = 0, microsecond = 0\<rparr>"

definition ex_song0 :: app_song where
  "ex_song0 = \<lparr>song_entries = [], csv_rows = []\<rparr>"

text \<open>Samples at the minute offsets 0, 30, 65 and 130, and the reading at the last one.\<close>

definition ex_four :: "entry list" where
  "ex_four = [\<lparr>timestamp = ''2024-01-01 10:00:00 IST'', play_count = ''1000''\<rparr>,
              \<lparr>timestamp = ''2024-01-01 10:30:00 IST'', play_count = ''1100''\<rparr>,
              \<lparr>timestamp = ''2024-01-01 11:05:00 IST'', play_count = ''1200''\<rparr>,
              \<lparr>timestamp = ''2024-01-01 12:10:00 IST'', play_count = ''1500''\<rparr>]"

definition ex_t6 :: datetime where
  "ex_t6 = \<lparr>year = 2024, month = 1, day = 1, hour = 12, minute = 10, second = 0, microsecond = 0\<rparr>"

text \<open>Two rows with one timestamp and different counts, and an unsorted series denser
  than hourly.\<close>

definition ex_dup :: "entry list" where
  "ex_dup = [\<lparr>timestamp = ''2024-01-01 10:00:00 IST'', play_count = ''100''\<rparr>,
             \<lparr>timestamp = ''2024-01-01 10:00:00 IST'', play_count = ''105''\<rparr>]"

definition ex_dense :: "entry list" where
  "ex_dense = [\<lparr>timestamp = ''2024-01-01 11:05:00 IST'', play_count = ''1200''\<rparr>,
               \<lparr>timestamp = ''2024-01-01 10:00:00 IST'', play_count = ''1000''\<rparr>,
               \<lparr>timestamp = ''2024-01-01 11:20:00 IST'', play_count = ''1250''\<rparr>,
               \<lparr>timestamp = ''2024-01-01 10:30:00 IST'', play_count = ''1100''\<rparr>]"

text \<open>For the samples, which are dated 2024: the zone's offset of five and a half hours
  (in force since 1945-10-15), float seconds by exact division, and clock readings at
  that offset.\<close>

definition ist_fixed :: "datetime \<Rightarrow> error + int" where
  "ist_fixed t = Inr 19800"

definition exact_seconds :: "int \<Rightarrow> real" where
  "exact_seconds us = real_of_int us / 1000000"

definition ex_now3 :: clock_reading where
  "ex_now3 = \<lparr>wall = ex_t3, utc_offset = 19800\<rparr>"

definition ex_now4 :: clock_reading where
  "ex_now4 = \<lparr>wall = ex_t4, utc_offset = 19800\<rparr>"

definition ex_now6 :: clock_reading where
  "ex_now6 = \<lparr>wall = ex_t6, utc_offset = 19800\<rparr>"

section \<open>Facts about the text and calendar primitives\<close>

lemma of_char_digit_char: "n < 10 \<Longrightarrow> (of_char (digit_char n) :: nat) = 48 + n"
  by (simp add: digit_char_def)

lemma is_digit_digit_char [simp]: "n < 10 \<Longrightarrow> is_digit (digit_char n)"
  by (simp add: is_digit_def of_char_digit_char)

lemma digit_val_digit_char [simp]: "n < 10 \<Longrightarrow> digit_val (digit_char n) = n"
  by (simp add: digit_val_def of_char_digit_char)

lemma digit_char_neq: "n < 10 \<Longrightarrow> \<not> is_digit c \<Longrightarrow> digit_char n \<noteq> c"
  using is_digit_digit_char by blast

lemma not_digit_consts [simp]:
  "\<not> is_digit CHR '' ''" "\<not> is_digit CHR ''-''" "\<not> is_digit CHR ''+''"
  "\<not> is_digit CHR '':''" "\<not> is_digit CHR ''I''" "\<not> is_digit CHR ''_''"
  by (simp_all add: is_digit_def)

lemma digit_char_neq_consts [simp]:
  assumes "n < 10"
  shows "digit_char n \<noteq> CHR '' ''" "digit_char n \<noteq> CHR ''-''" "digit_char n \<noteq> CHR ''+''"
    "digit_char n \<noteq> CHR '':''" "digit_char n \<noteq> CHR ''I''" "digit_char n \<noteq> CHR ''_''"
  using assms by (simp_all add: digit_char_neq)

lemma digit_not_space: "is_digit c \<Longrightarrow> \<not> is_space c"
  by (simp add: is_digit_def is_space_def)

lemma digit_not_c_space: "is_digit c \<Longrightarrow> \<not> is_c_space c"
  by (simp add: is_digit_def is_c_space_def)

lemma strip_by_id: "s \<noteq> [] \<Longrightarrow> \<not> p (hd s) \<Longrightarrow> \<not> p (last s) \<Longrightarrow> strip_by p s = s"
proof -
  assume a: "s \<noteq> []" "\<not> p (hd s)" "\<not> p (last s)"
  have 1: "dropWhile p s = s"
    using a by (simp add: dropWhile_eq_self_iff)
  have 2: "dropWhile p (rev s) = rev s"
    using a by (simp add: dropWhile_eq_self_iff hd_rev)
  show ?thesis
    by (simp add: strip_by_def 1 2)
qed

lemma str_nat_digits: "c \<in> set (str_nat n) \<Longrightarrow> is_digit c"
proof (induction n arbitrary: c rule: str_nat.induct)
  case (1 n)
  show ?case
  proof (cases "n < 10")
    case True
    with "1.prems" show ?thesis by (simp add: str_nat.simps [of n])
  next
    case False
    with "1.prems" "1.IH" show ?thesis
      by (auto simp: str_nat.simps [of n])
  qed
qed

lemma str_nat_nonempty: "str_nat n \<noteq> []"
  by (subst str_nat.simps) simp

lemma digits_val_snoc: "is_digit c \<Longrightarrow> digits_val (s @ [c]) = 10 * digits_val s + digit_val c"
  by (simp add: digits_val_def)

lemma digits_val_str_nat: "digits_val (str_nat n) = n"
proof (induction n rule: str_nat.induct)
  case (1 n)
  show ?case
  proof (cases "n < 10")
    case True
    then show ?thesis by (simp add: str_nat.simps [of n] digits_val_def)
  next
    case False
    with "1.IH" show ?thesis
      by (simp add: str_nat.simps [of n] digits_val_snoc)
  qed
qed

lemma int_body_ok_digits: "s \<noteq> [] \<Longrightarrow> \<forall>c\<in>set s. is_digit c \<Longrightarrow> int_body_ok s"
proof (induction s rule: int_body_ok.induct)
  case (3 c d r)
  then show ?case by auto
qed simp_all

lemma py_int_str_nat: "py_int (str_nat n) = Some (int n)"
proof -
  obtain c r where cr: "str_nat n = c # r"
    using str_nat_nonempty by (cases "str_nat n") auto
  have dig: "\<forall>x\<in>set (str_nat n). is_digit x"
    using str_nat_digits by blast
  have "is_digit (hd (str_nat n))" "is_digit (last (str_nat n))"
    using dig str_nat_nonempty by simp_all
  then have st: "strip_by is_c_space (str_nat n) = str_nat n"
    using str_nat_nonempty by (simp add: strip_by_id digit_not_c_space)
  have c: "is_digit c" using dig cr by simp
  then have "c \<noteq> CHR ''-''" "c \<noteq> CHR ''+''" by auto
  moreover have "int_body_ok (c # r)"
    using int_body_ok_digits [OF str_nat_nonempty dig] cr by simp
  ultimately show ?thesis
    using st cr digits_val_str_nat [of n] by (simp add: py_int_def)
qed

subsection \<open>A formatted timestamp parses back\<close>

lemma str_nat_four:
  assumes "1000 \<le> y" and "y \<le> 9999"
  shows "str_nat y = [digit_char (y div 1000), digit_char (y div 100 mod 10),
                      digit_char (y div 10 mod 10), digit_char (y mod 10)]"
proof -
  have n: "\<not> y < 10" "\<not> y div 10 < 10" "\<not> y div 100 < 10" "y div 1000 < 10"
    using assms by simp_all
  have e: "y div 10 div 10 = y div 100" "y div 100 div 10 = y div 1000"
    by (simp_all add: div_mult2_eq [symmetric])
  have a: "str_nat y = str_nat (y div 10) @ [digit_char (y mod 10)]"
    using n(1) str_nat.simps [of y] by simp
  have b: "str_nat (y div 10) = str_nat (y div 100) @ [digit_char (y div 10 mod 10)]"
    using n(2) e(1) str_nat.simps [of "y div 10"] by simp
  have c: "str_nat (y div 100) = str_nat (y div 1000) @ [digit_char (y div 100 mod 10)]"
    using n(3) e(2) str_nat.simps [of "y div 100"] by simp
  have d: "str_nat (y div 1000) = [digit_char (y div 1000)]"
    using n(4) str_nat.simps [of "y div 1000"] by simp
  show ?thesis by (simp add: a b c d)
qed

lemma clean_ts_formatted:
  assumes "y1 < 10" "y2 < 10" "y3 < 10" "y4 < 10" "m1 < 10" "m2 < 10" "d1 < 10" "d2 < 10"
    "h1 < 10" "h2 < 10" "n1 < 10" "n2 < 10" "s1 < 10" "s2 < 10"
  shows "clean_ts ([digit_char y1, digit_char y2, digit_char y3, digit_char y4, CHR ''-'',
            digit_char m1, digit_char m2, CHR ''-'', digit_char d1, digit_char d2, CHR '' '',
            digit_char h1, digit_char h2, CHR '':'', digit_char n1, digit_char n2, CHR '':'',
            digit_char s1, digit_char s2] @ '' IST'')
         = [digit_char y1, digit_char y2, digit_char y3, digit_char y4, CHR ''-'',
            digit_char m1, digit_char m2, CHR ''-'', digit_char d1, digit_char d2, CHR '' '',
            digit_char h1, digit_char h2, CHR '':'', digit_char n1, digit_char n2, CHR '':'',
            digit_char s1, digit_char s2]"
proof -
  have r: "remove_IST ([digit_char y1, digit_char y2, digit_char y3, digit_char y4, CHR ''-'',
            digit_char m1, digit_char m2, CHR ''-'', digit_char d1, digit_char d2, CHR '' '',
            digit_char h1, digit_char h2, CHR '':'', digit_char n1, digit_char n2, CHR '':'',
            digit_char s1, digit_char s2] @ '' IST'')
         = [digit_char y1, digit_char y2, digit_char y3, digit_char y4, CHR ''-'',
            digit_char m1, digit_char m2, CHR ''-'', digit_char d1, digit_char d2, CHR '' '',
            digit_char h1, digit_char h2, CHR '':'', digit_char n1, digit_char n2, CHR '':'',
            digit_char s1, digit_char s2]"
    using assms by simp
  show ?thesis
    unfolding clean_ts_def r strip_def
    using assms by (intro strip_by_id) (simp_all add: digit_not_space)
qed

lemma p_field_two:
  assumes "a < 10" "b < 10" "ok2 a b"
  shows "p_field ok2 ok1 (digit_char a # digit_char b # r) = Some (10 * a + b, r)"
  using assms by simp

lemma strptime_formatted:
  assumes "y1 < 10" "y2 < 10" "y3 < 10" "y4 < 10" "m1 < 10" "m2 < 10" "d1 < 10" "d2 < 10"
    "h1 < 10" "h2 < 10" "n1 < 10" "n2 < 10" "s1 < 10" "s2 < 10"
    and "(m1 = 1 \<and> m2 \<le> 2) \<or> (m1 = 0 \<and> 1 \<le> m2)"
    and "(d1 = 3 \<and> d2 \<le> 1) \<or> d1 = 1 \<or> d1 = 2 \<or> (d1 = 0 \<and> 1 \<le> d2)"
    and "(h1 = 2 \<and> h2 \<le> 3) \<or> h1 \<le> 1"
    and "n1 \<le> 5" and "s1 \<le> 5"
    and "1 \<le> 1000 * y1 + 100 * y2 + 10 * y3 + y4"
    and "10 * d1 + d2 \<le> days_in_month (1000 * y1 + 100 * y2 + 10 * y3 + y4) (10 * m1 + m2)"
  shows "strptime [digit_char y1, digit_char y2, digit_char y3, digit_char y4, CHR ''-'',
            digit_char m1, digit_char m2, CHR ''-'', digit_char d1, digit_char d2, CHR '' '',
            digit_char h1, digit_char h2, CHR '':'', digit_char n1, digit_char n2, CHR '':'',
            digit_char s1, digit_char s2]
         = Some \<lparr>year = 1000 * y1 + 100 * y2 + 10 * y3 + y4, month = 10 * m1 + m2,
                 day = 10 * d1 + d2, hour = 10 * h1 + h2, minute = 10 * n1 + n2,
                 second = 10 * s1 + s2, microsecond = 0\<rparr>"
proof -
  have sp: "is_space CHR '' ''" by (simp add: is_space_def)
  have s59: "10 * s1 + s2 \<le> 59" using assms by simp
  show ?thesis
    unfolding strptime_def p_month_def p_day_def p_hour_def p_minute_def p_second_def p_spaces_def
    using assms sp s59
    by (simp add: p_field_two digit_not_space del: p_field.simps)
qed

lemma days_in_month_le: "days_in_month y m \<le> 31"
  by (simp add: days_in_month_def)

lemma decimal_four:
  assumes "(y::nat) \<le> 9999"
  shows "1000 * (y div 1000) + 100 * (y div 100 mod 10) + 10 * (y div 10 mod 10) + y mod 10 = y"
proof -
  define q1 q2 q3 a b c where "q1 = y div 10" and "q2 = q1 div 10" and "q3 = q2 div 10"
    and "a = y mod 10" and "b = q1 mod 10" and "c = q2 mod 10"
  have 1: "y = 10 * q1 + a" unfolding q1_def a_def by simp
  have 2: "q1 = 10 * q2 + b" unfolding q2_def b_def by simp
  have 3: "q2 = 10 * q3 + c" unfolding q3_def c_def by simp
  have e: "y div 100 = q2" "y div 1000 = q3" "y div 10 = q1"
    unfolding q1_def q2_def q3_def by (simp_all add: div_mult2_eq [symmetric])
  have "1000 * q3 + 100 * c + 10 * b + a = y"
    using 1 2 3 by simp
  then show ?thesis
    unfolding e b_def [symmetric] c_def [symmetric] a_def [symmetric] .
qed

lemma div10_shift: "r < 10 \<Longrightarrow> (10 * k + r) div 10 = k \<and> (10 * k + r) mod 10 = (r::nat)"
  by simp

lemma div10_band:
  fixes n :: nat
  assumes "10 * k \<le> n" and "n < 10 * k + 10"
  shows "n div 10 = k \<and> n mod 10 = n - 10 * k"
proof -
  have e: "10 * k + (n - 10 * k) = n" using assms(1) by simp
  have l: "n - 10 * k < 10" using assms by simp
  have "(10 * k + (n - 10 * k)) div 10 = k \<and> (10 * k + (n - 10 * k)) mod 10 = n - 10 * k"
    by (rule div10_shift [OF l])
  then show ?thesis by (simp only: e)
qed

lemma month_digits:
  assumes "1 \<le> (m::nat)" and "m \<le> 12"
  shows "(m div 10 = 1 \<and> m mod 10 \<le> 2) \<or> (m div 10 = 0 \<and> 1 \<le> m mod 10)"
proof (cases "m < 10")
  case True
  then show ?thesis using div10_band [of 0 m] assms by simp
next
  case False
  then show ?thesis using div10_band [of 1 m] assms by simp
qed

lemma day_digits:
  assumes "1 \<le> (d::nat)" and "d \<le> 31"
  shows "(d div 10 = 3 \<and> d mod 10 \<le> 1) \<or> d div 10 = 1 \<or> d div 10 = 2 \<or> (d div 10 = 0 \<and> 1 \<le> d mod 10)"
proof -
  consider "d < 10" | "10 \<le> d" "d < 20" | "20 \<le> d" "d < 30" | "30 \<le> d"
    by linarith
  then show ?thesis
  proof cases
    case 1
    then show ?thesis using div10_band [of 0 d] assms by simp
  next
    case 2
    then show ?thesis using div10_band [of 1 d] by simp
  next
    case 3
    then show ?thesis using div10_band [of 2 d] by simp
  next
    case 4
    then show ?thesis using div10_band [of 3 d] assms by simp
  qed
qed

lemma hour_digits:
  assumes "(H::nat) \<le> 23"
  shows "(H div 10 = 2 \<and> H mod 10 \<le> 3) \<or> H div 10 \<le> 1"
proof -
  consider "H < 10" | "10 \<le> H" "H < 20" | "20 \<le> H"
    by linarith
  then show ?thesis
  proof cases
    case 1
    then show ?thesis using div10_band [of 0 H] by simp
  next
    case 2
    then show ?thesis using div10_band [of 1 H] by simp
  next
    case 3
    then show ?thesis using div10_band [of 2 H] assms by simp
  qed
qed

lemma safe_parse_ts_strftime:
  assumes v: "valid_datetime dt" and y: "1000 \<le> year dt"
  shows "safe_parse_ts (strftime_IST dt) = Some (dt\<lparr>microsecond := 0\<rparr>)"
proof -
  define Y m d H M S where "Y = year dt" and "m = month dt" and "d = day dt"
    and "H = hour dt" and "M = minute dt" and "S = second dt"
  have b: "1000 \<le> Y" "Y \<le> 9999" "1 \<le> m" "m \<le> 12" "1 \<le> d" "d \<le> days_in_month Y m"
    "H \<le> 23" "M \<le> 59" "S \<le> 59"
    using v y by (simp_all add: valid_datetime_def Y_def m_def d_def H_def M_def S_def)
  have d31: "d \<le> 31" using b(6) days_in_month_le [of Y m] by linarith
  let ?s = "[digit_char (Y div 1000), digit_char (Y div 100 mod 10), digit_char (Y div 10 mod 10),
             digit_char (Y mod 10), CHR ''-'', digit_char (m div 10), digit_char (m mod 10), CHR ''-'',
             digit_char (d div 10), digit_char (d mod 10), CHR '' '',
             digit_char (H div 10), digit_char (H mod 10), CHR '':'',
             digit_char (M div 10), digit_char (M mod 10), CHR '':'',
             digit_char (S div 10), digit_char (S mod 10)]"
  have fmt: "strftime_IST dt = ?s @ '' IST''"
    unfolding strftime_IST_def pad2_def Y_def [symmetric] m_def [symmetric] d_def [symmetric]
      H_def [symmetric] M_def [symmetric] S_def [symmetric] str_nat_four [OF b(1,2)]
    by simp
  have lt: "Y div 1000 < 10" "Y div 100 mod 10 < 10" "Y div 10 mod 10 < 10" "Y mod 10 < 10"
    "m div 10 < 10" "m mod 10 < 10" "d div 10 < 10" "d mod 10 < 10" "H div 10 < 10" "H mod 10 < 10"
    "M div 10 < 10" "M mod 10 < 10" "S div 10 < 10" "S mod 10 < 10"
    using b d31 by auto
  have cl: "clean_ts (?s @ '' IST'') = ?s"
    by (rule clean_ts_formatted [OF lt])
  have mm: "(m div 10 = 1 \<and> m mod 10 \<le> 2) \<or> (m div 10 = 0 \<and> 1 \<le> m mod 10)"
    by (rule month_digits [OF b(3,4)])
  have dd: "(d div 10 = 3 \<and> d mod 10 \<le> 1) \<or> d div 10 = 1 \<or> d div 10 = 2
      \<or> (d div 10 = 0 \<and> 1 \<le> d mod 10)"
    by (rule day_digits [OF b(5) d31])
  have hh: "(H div 10 = 2 \<and> H mod 10 \<le> 3) \<or> H div 10 \<le> 1"
    by (rule hour_digits [OF b(7)])
  have nn: "M div 10 \<le> 5" using b(8) by simp
  have ss: "S div 10 \<le> 5" using b(9) by simp
  have yy: "1000 * (Y div 1000) + 100 * (Y div 100 mod 10) + 10 * (Y div 10 mod 10) + Y mod 10 = Y"
    using b(2) by (rule decimal_four)
  have y1: "1 \<le> 1000 * (Y div 1000) + 100 * (Y div 100 mod 10) + 10 * (Y div 10 mod 10) + Y mod 10"
    using yy b(1) by simp
  have two: "10 * (m div 10) + m mod 10 = m" "10 * (d div 10) + d mod 10 = d"
    "10 * (H div 10) + H mod 10 = H" "10 * (M div 10) + M mod 10 = M" "10 * (S div 10) + S mod 10 = S"
    by simp_all
  have dim: "10 * (d div 10) + d mod 10
      \<le> days_in_month (1000 * (Y div 1000) + 100 * (Y div 100 mod 10) + 10 * (Y div 10 mod 10) + Y mod 10)
          (10 * (m div 10) + m mod 10)"
    using b(6) by (simp only: yy two)
  have "strptime ?s = Some \<lparr>year = 1000 * (Y div 1000) + 100 * (Y div 100 mod 10) + 10 * (Y div 10 mod 10) + Y mod 10,
      month = 10 * (m div 10) + m mod 10, day = 10 * (d div 10) + d mod 10,
      hour = 10 * (H div 10) + H mod 10, minute = 10 * (M div 10) + M mod 10,
      second = 10 * (S div 10) + S mod 10, microsecond = 0\<rparr>"
    by (rule strptime_formatted [OF lt mm dd hh nn ss y1 dim])
  then have "strptime ?s = Some \<lparr>year = Y, month = m, day = d, hour = H, minute = M,
      second = S, microsecond = 0\<rparr>"
    by (simp only: yy two)
  then have "safe_parse_ts (strftime_IST dt) = Some \<lparr>year = Y, month = m, day = d, hour = H,
      minute = M, second = S, microsecond = 0\<rparr>"
    by (simp only: safe_parse_ts_def fmt cl)
  then show ?thesis
    by (simp add: Y_def m_def d_def H_def M_def S_def)
qed

section \<open>The ingestion decision of \<open>update_song\<close>\<close>

text \<open>
  Claim C1. When the stored series is empty, or its last entry has a timestamp that
  parses and a play count that reads as an integer, \<open>update_song\<close> decides in the order
  of the ingestion policy: no fetched value, nothing changes; a fetched value strictly
  below the last stored one, nothing changes; an empty series, the sample is stored;
  the clock in the calendar hour (year, month, day, hour) of the last stored sample,
  nothing changes; otherwise the sample with the clock's timestamp and the fetched value
  is appended.
\<close>

theorem update_song_decision_order:
  assumes "data = load_json f"
    and "data \<noteq> [] \<Longrightarrow> safe_parse_ts (timestamp (last data)) = Some last_dt \<and> py_int (play_count (last data)) = Some v"
  shows "update_song f count now_dt =
     (case count of
        None \<Rightarrow> (False, f)
      | Some c \<Rightarrow>
          if data \<noteq> [] \<and> int c < v then (False, f)
          else if data = [] then (True, save_json [\<lparr>timestamp = strftime_IST now_dt, play_count = str_nat c\<rparr>])
          else if (year now_dt, month now_dt, day now_dt, hour now_dt)
                    = (year last_dt, month last_dt, day last_dt, hour last_dt) then (False, f)
          else (True, save_json (data @ [\<lparr>timestamp = strftime_IST now_dt, play_count = str_nat c\<rparr>])))"
proof (cases "data = []")
  case True
  with assms(1) show ?thesis
    by (simp add: update_song_def should_append_hourly_def split: option.split)
next
  case False
  with assms show ?thesis
    by (simp add: update_song_def should_append_hourly_def safe_parse_ts_def Let_def split: option.split)
qed

theorem update_song_decision_order_witness:
  "[ex_first] = load_json (Stored [ex_first])
   \<and> safe_parse_ts (timestamp (last [ex_first])) = Some ex_t1
   \<and> py_int (play_count (last [ex_first])) = Some 500
   \<and> update_song (Stored [ex_first]) (Some 620) ex_t3
       = (True, save_json ([ex_first] @ [\<lparr>timestamp = strftime_IST ex_t3, play_count = str_nat 620\<rparr>]))
   \<and> update_song (Stored [ex_first]) (Some 500) ex_t2 = (False, Stored [ex_first])
   \<and> update_song (Stored [ex_first]) (Some 499) ex_t3 = (False, Stored [ex_first])
   \<and> update_song (Stored [ex_first]) None ex_t3 = (False, Stored [ex_first])"
proof -
  have h1: "[ex_first] = load_json (Stored [ex_first])"
    by (simp add: load_json_def)
  have h2: "safe_parse_ts (timestamp (last [ex_first])) = Some ex_t1"
    by code_simp
  have h3: "py_int (play_count (last [ex_first])) = Some 500"
    by code_simp
  have h: "[ex_first] \<noteq> [] \<Longrightarrow> safe_parse_ts (timestamp (last [ex_first])) = Some ex_t1
      \<and> py_int (play_count (last [ex_first])) = Some 500"
    using h2 h3 by simp
  note th = update_song_decision_order [OF h1 h]
  show ?thesis
    using h1 h2 h3 th [of "Some 620" ex_t3] th [of "Some 500" ex_t2] th [of "Some 499" ex_t3] th [of None ex_t3]
    by (simp add: ex_t1_def ex_t2_def ex_t3_def)
qed

section \<open>Stored values that do not parse\<close>

text \<open>
  Claim C9. When the series is not empty and the play count of its last entry does not
  read as an integer, the comparison of \<open>update_song\<close> raises and the exception is
  swallowed: whatever the fetched value, even one below every stored value, the sample
  is appended as soon as the hour check allows it.
\<close>

theorem update_song_guard_bypassed:
  assumes "load_json f = data" and "data \<noteq> []"
    and "py_int (play_count (last data)) = None"
  shows "update_song f (Some c) now_dt =
     (if should_append_hourly data now_dt
      then (True, save_json (data @ [\<lparr>timestamp = strftime_IST now_dt, play_count = str_nat c\<rparr>]))
      else (False, f))"
  using assms by (simp add: update_song_def)

theorem update_song_guard_bypassed_witness:
  "load_json (Stored [ex_first, ex_garbled]) = [ex_first, ex_garbled]
   \<and> [ex_first, ex_garbled] \<noteq> []
   \<and> py_int (play_count (last [ex_first, ex_garbled])) = None
   \<and> update_song (Stored [ex_first, ex_garbled]) (Some 5) ex_t4
       = (True, Stored [ex_first, ex_garbled, \<lparr>timestamp = ''2024-01-01 12:00:00 IST'', play_count = ''5''\<rparr>])"
proof -
  have h1: "load_json (Stored [ex_first, ex_garbled]) = [ex_first, ex_garbled]"
    by (simp add: load_json_def)
  have h2: "[ex_first, ex_garbled] \<noteq> []" by simp
  have h3: "py_int (play_count (last [ex_first, ex_garbled])) = None"
    by code_simp
  have a: "should_append_hourly [ex_first, ex_garbled] ex_t4"
    by code_simp
  have b: "strftime_IST ex_t4 = ''2024-01-01 12:00:00 IST''" by code_simp
  have c: "str_nat 5 = ''5''" by code_simp
  show ?thesis
    using h1 h3 update_song_guard_bypassed [OF h1 h2 h3, of 5 ex_t4] a b c
    by (simp add: save_json_def)
qed

text \<open>
  Claim C10. When the series is not empty and the timestamp of its last entry does not
  parse in the fixed format, \<open>should_append_hourly\<close> returns \<open>True\<close> whatever the clock
  reads, and \<open>update_song\<close> appends every fetched value that the decreasing-value check
  lets through, also within the calendar hour the malformed timestamp was written in.
\<close>

theorem should_append_hourly_malformed:
  assumes "load_json f = existing" and "existing \<noteq> []"
    and "strptime (clean_ts (timestamp (last existing))) = None"
    and "\<forall>v. py_int (play_count (last existing)) = Some v \<longrightarrow> v \<le> int c"
  shows "should_append_hourly existing now_dt
    \<and> update_song f (Some c) now_dt
        = (True, save_json (existing @ [\<lparr>timestamp = strftime_IST now_dt, play_count = str_nat c\<rparr>]))"
proof -
  have a: "should_append_hourly existing now_dt"
    using assms(2,3) by (simp add: should_append_hourly_def)
  have "\<not> (case py_int (play_count (last existing)) of None \<Rightarrow> False | Some v \<Rightarrow> int c < v)"
    using assms(4) by (auto split: option.split)
  then show ?thesis
    using a assms(1) by (simp add: update_song_def)
qed

theorem should_append_hourly_malformed_witness:
  "load_json (Stored [ex_iso]) = [ex_iso] \<and> [ex_iso] \<noteq> []
   \<and> strptime (clean_ts (timestamp (last [ex_iso]))) = None
   \<and> py_int (play_count (last [ex_iso])) = Some 500
   \<and> should_append_hourly [ex_iso] ex_t2
   \<and> update_song (Stored [ex_iso]) (Some 500) ex_t2
        = (True, Stored [ex_iso, \<lparr>timestamp = ''2024-01-01 10:05:00 IST'', play_count = ''500''\<rparr>])"
proof -
  have h1: "load_json (Stored [ex_iso]) = [ex_iso]"
    by (simp add: load_json_def)
  have h2: "[ex_iso] \<noteq> []" by simp
  have h3: "strptime (clean_ts (timestamp (last [ex_iso]))) = None"
    by code_simp
  have v: "py_int (play_count (last [ex_iso])) = Some 500" by code_simp
  have h4: "\<forall>v. py_int (play_count (last [ex_iso])) = Some v \<longrightarrow> v \<le> int 500"
    using v by simp
  have b: "strftime_IST ex_t2 = ''2024-01-01 10:05:00 IST''" by code_simp
  have c: "str_nat 500 = ''500''" by code_simp
  show ?thesis
    using h1 h3 v should_append_hourly_malformed [OF h1 h2 h3 h4, of ex_t2] b c
    by (simp add: save_json_def)
qed

section \<open>An unreadable history file\<close>

text \<open>
  Claim C8, as stated: after a failed read, an accepted sample does not replace what
  was persisted. It fails on a truncated file: the accepted sample is saved as a
  one-sample series over it.
\<close>

theorem unreadable_store_overwritten:
  "load_json (Unreadable ex_raw) = []
   \<and> update_song (Unreadable ex_raw) (Some 620) ex_t3
       = (True, Stored [\<lparr>timestamp = ''2024-01-01 11:10:00 IST'', play_count = ''620''\<rparr>])
   \<and> snd (update_song (Unreadable ex_raw) (Some 620) ex_t3) \<noteq> Unreadable ex_raw"
proof -
  have a: "update_song (Unreadable ex_raw) (Some 620) ex_t3
       = (True, Stored [\<lparr>timestamp = ''2024-01-01 11:10:00 IST'', play_count = ''620''\<rparr>])"
    by code_simp
  show ?thesis
    by (simp add: a load_json_def)
qed

text \<open>
  Claim C8, amended. \<open>load_json\<close> reads an unreadable file as the empty series.
  \<open>update_song\<close> leaves the file as it is when the fetch produced no value; when the
  fetch produced a value the sample is accepted and \<open>save_json\<close> replaces the file by
  the series holding that one sample.
\<close>

theorem update_song_unreadable_store:
  "load_json (Unreadable raw) = []
   \<and> update_song (Unreadable raw) None now_dt = (False, Unreadable raw)
   \<and> update_song (Unreadable raw) (Some c) now_dt
       = (True, Stored [\<lparr>timestamp = strftime_IST now_dt, play_count = str_nat c\<rparr>])"
  by (simp add: update_song_def load_json_def save_json_def should_append_hourly_def)

theorem update_song_unreadable_store_witness:
  "update_song (Unreadable ex_raw) None ex_t3 = (False, Unreadable ex_raw)
   \<and> update_song (Unreadable ex_raw) (Some 620) ex_t3
       = (True, Stored [\<lparr>timestamp = ''2024-01-01 11:10:00 IST'', play_count = ''620''\<rparr>])"
proof -
  have b: "strftime_IST ex_t3 = ''2024-01-01 11:10:00 IST''" by code_simp
  have c: "str_nat 620 = ''620''" by code_simp
  show ?thesis
    using update_song_unreadable_store [of ex_raw ex_t3 620] b c by simp
qed

section \<open>The summary of a short series\<close>

lemma find_reference_single:
  "find_reference localize total_seconds [e] now h =
     (case target_time now h of
        Inl err \<Rightarrow> Inl err
      | Inr w \<Rightarrow>
          (case safe_parse_ts (timestamp e) of
             None \<Rightarrow> Inr None
           | Some t \<Rightarrow> (case localize t of Inl err \<Rightarrow> Inl err | Inr off \<Rightarrow> Inr (Some e))))"
  by (simp add: find_reference_def Let_def split: option.split sum.split)

lemma ex_target_now3:
  "target_time ex_now3 1 = Inr 63839787000000000"
  "target_time ex_now3 24 = Inr 63839704200000000"
  "target_time ex_now4 24 = Inr 63839707200000000"
  by (simp_all add: target_time_def timedelta_hours_def min_micros_def max_micros_def
      ex_now3_def ex_now4_def ex_t3_def ex_t4_def dt_micros_def dt_seconds_def ymd2ord_def
      days_before_year_def days_before_month_def days_in_month_def is_leap_def Let_def)

lemma ex_first_read:
  "py_int (play_count ex_first) = Some 500"
  "py_int (play_count ex_iso) = Some 500"
  "safe_parse_ts (timestamp ex_first) = Some ex_t1"
  "safe_parse_ts (timestamp ex_iso) = None"
  by code_simp+

text \<open>
  Claim C7, as stated: a series of fewer than two samples never yields a numeric
  \<open>hour_increase\<close> or \<open>day_increase\<close>. It fails on the series holding the one sample of
  500 plays: both increases are reported as the number 0.
\<close>

theorem single_sample_zero_increase:
  "summarise_song ist_fixed exact_seconds (Stored [ex_first]) ex_now3 ex_now3
     = Inr (Some \<lparr>current = 500, previous_hour = Some 500, hour_increase = Some 0,
                  previous_24h = Some 500, day_increase = Some 0, entries = 1\<rparr>)"
  by (simp add: summarise_song_def load_json_def find_reference_single ex_target_now3
      ex_first_read ist_fixed_def increase_over_def previous_of_def)

text \<open>
  Claim C7, amended. \<open>build_summary\<close> leaves a song with an absent or empty series out
  of the summary. For a series of one sample whose play count reads as an integer, the
  result is determined as follows, in the order of the code. When the target time an
  hour back is not a representable datetime, \<open>find_reference\<close> raises. Otherwise, when
  the timestamp of the sample does not parse, the previous values and the increases at
  both horizons are \<open>None\<close>; when it parses and its localization does not raise, the
  sample is its own reference at both horizons and \<open>hour_increase\<close> and \<open>day_increase\<close>
  are the number 0. In either case the second call raises instead when the target time
  24 hours back is not representable.
\<close>

theorem summarise_song_short_series:
  assumes "py_int (play_count e) = Some v"
  shows "summarise_song localize total_seconds Missing now1 now2 = Inr None
    \<and> summarise_song localize total_seconds (Stored []) now1 now2 = Inr None
    \<and> summarise_song localize total_seconds (Stored [e]) now1 now2 =
        (case target_time now1 1 of
           Inl err \<Rightarrow> Inl err
         | Inr target1 \<Rightarrow>
             (case safe_parse_ts (timestamp e) of
                None \<Rightarrow>
                  (case target_time now2 24 of
                     Inl err \<Rightarrow> Inl err
                   | Inr target2 \<Rightarrow>
                       Inr (Some \<lparr>current = v, previous_hour = None, hour_increase = None,
                                  previous_24h = None, day_increase = None, entries = 1\<rparr>))
              | Some t \<Rightarrow>
                  (case localize t of
                     Inl err \<Rightarrow> Inl err
                   | Inr off \<Rightarrow>
                       (case target_time now2 24 of
                          Inl err \<Rightarrow> Inl err
                        | Inr target2 \<Rightarrow>
                            Inr (Some \<lparr>current = v, previous_hour = Some v,
                                       hour_increase = Some 0, previous_24h = Some v,
                                       day_increase = Some 0, entries = 1\<rparr>)))))"
  using assms
  by (auto simp: summarise_song_def load_json_def find_reference_single increase_over_def
      previous_of_def split: option.split sum.split)

theorem summarise_song_short_series_witness:
  "py_int (play_count ex_first) = Some 500
   \<and> summarise_song ist_fixed exact_seconds (Stored [ex_first]) ex_now3 ex_now4
       = Inr (Some \<lparr>current = 500, previous_hour = Some 500, hour_increase = Some 0,
                  previous_24h = Some 500, day_increase = Some 0, entries = 1\<rparr>)
   \<and> summarise_song ist_fixed exact_seconds (Stored [ex_iso]) ex_now3 ex_now4
       = Inr (Some \<lparr>current = 500, previous_hour = None, hour_increase = None,
                  previous_24h = None, day_increase = None, entries = 1\<rparr>)"
  using ex_first_read(1)
    summarise_song_short_series [OF ex_first_read(1), of ist_fixed exact_seconds ex_now3 ex_now4]
    summarise_song_short_series [OF ex_first_read(2), of ist_fixed exact_seconds ex_now3 ex_now4]
  by (simp add: ex_target_now3 ex_first_read ist_fixed_def)

section \<open>Non-decreasing values\<close>

lemma values_of_snoc:
  "values_of (es @ [e]) =
     (case values_of es of
        None \<Rightarrow> None
      | Some vs \<Rightarrow> (case py_int (play_count e) of None \<Rightarrow> None | Some v \<Rightarrow> Some (vs @ [v])))"
  by (induction es) (auto split: option.split)

lemma values_of_last:
  "values_of es = Some vs \<Longrightarrow> es \<noteq> [] \<Longrightarrow> vs \<noteq> [] \<and> py_int (play_count (last es)) = Some (last vs)"
proof (induction es arbitrary: vs)
  case Nil
  then show ?case by simp
next
  case (Cons e es)
  then show ?case
    by (cases "es = []") (auto split: option.splits)
qed

lemma sorted_snoc_last:
  fixes vs :: "int list"
  assumes "sorted vs" and "vs \<noteq> [] \<Longrightarrow> last vs \<le> v"
  shows "sorted (vs @ [v])"
proof (cases "vs = []")
  case True
  then show ?thesis by simp
next
  case False
  have "x \<le> last vs" if "x \<in> set vs" for x
    using assms(1) that False
    by (metis in_set_conv_nth last_conv_nth sorted_nth_mono Suc_pred' length_greater_0_conv less_Suc_eq_le diff_less zero_less_one)
  then show ?thesis
    using assms False by (fastforce simp: sorted_append)
qed

lemma update_song_accepted:
  assumes "fst (update_song f count now_dt)"
  shows "\<exists>c. count = Some c
    \<and> snd (update_song f count now_dt)
        = Stored (load_json f @ [\<lparr>timestamp = strftime_IST now_dt, play_count = str_nat c\<rparr>])
    \<and> (\<forall>v. load_json f \<noteq> [] \<longrightarrow> py_int (play_count (last (load_json f))) = Some v \<longrightarrow> v \<le> int c)"
  using assms
  by (auto simp: update_song_def save_json_def Let_def split: option.splits if_splits)

lemma update_song_rejected:
  "\<not> fst (update_song f count now_dt) \<Longrightarrow> snd (update_song f count now_dt) = f"
  by (auto simp: update_song_def Let_def split: option.splits if_splits)

lemma update_song_non_decreasing:
  assumes "non_decreasing (load_json f)"
  shows "non_decreasing (load_json (snd (update_song f count now_dt)))"
proof (cases "fst (update_song f count now_dt)")
  case False
  then show ?thesis using assms by (simp add: update_song_rejected)
next
  case True
  from update_song_accepted [OF True] obtain c where
    c: "count = Some c"
    and s: "snd (update_song f count now_dt)
        = Stored (load_json f @ [\<lparr>timestamp = strftime_IST now_dt, play_count = str_nat c\<rparr>])"
    and le: "\<forall>v. load_json f \<noteq> [] \<longrightarrow> py_int (play_count (last (load_json f))) = Some v \<longrightarrow> v \<le> int c"
    by blast
  from assms obtain vs where vs: "values_of (load_json f) = Some vs" and so: "sorted vs"
    by (auto simp: non_decreasing_def split: option.splits)
  have "vs \<noteq> [] \<Longrightarrow> last vs \<le> int c"
  proof -
    assume ne: "vs \<noteq> []"
    then have "load_json f \<noteq> []" using vs by auto
    with values_of_last [OF vs] le show ?thesis by simp
  qed
  with so have "sorted (vs @ [int c])" by (rule sorted_snoc_last)
  then show ?thesis
    by (simp add: s load_json_def non_decreasing_def values_of_snoc vs [unfolded load_json_def] py_int_str_nat)
qed

lemma run_updates_non_decreasing:
  "non_decreasing (load_json f) \<Longrightarrow> non_decreasing (load_json (run_updates f feed))"
proof (induction feed arbitrary: f)
  case Nil
  then show ?case by simp
next
  case (Cons step feed)
  obtain count now_dt where step: "step = (count, now_dt)" by (cases step)
  from Cons.prems have "non_decreasing (load_json (snd (update_song f count now_dt)))"
    by (rule update_song_non_decreasing)
  then show ?case
    unfolding step by (simp add: Cons.IH)
qed

lemma ex_clock_gaps:
  "dt_micros ex_t3 - dt_micros ex_t1 \<ge> 900000000" "dt_micros ex_t5 - dt_micros ex_t1 \<ge> 900000000"
  by (simp_all add: dt_micros_def dt_seconds_def ymd2ord_def days_before_year_def
      days_before_month_def ex_t1_def ex_t3_def ex_t5_def)

lemma ex_clock_texts:
  "strftime_IST ex_t1 = ''2024-01-01 10:00:00 IST''"
  "strftime_IST ex_t3 = ''2024-01-01 11:10:00 IST''"
  "strftime_IST ex_t5 = ''2024-01-01 10:20:00 IST''"
  by code_simp+

lemma first_poll:
  "update_play_count (ex_song0, None) (Some (c # cs)) ex_t1
     = (\<lparr>song_entries = [\<lparr>a_timestamp = strftime_IST ex_t1, a_play_count = Txt (c # cs)\<rparr>],
         csv_rows = [(strftime_IST ex_t1, c # cs)]\<rparr>, Some ex_t1)"
  by (simp add: update_play_count_def poll_song_def ex_song0_def)

text \<open>
  Claim C2, as stated: on every ingestion path the stored values never fall. It fails
  on the polling thread of \<open>app.py\<close>: after a stored 100, a fetched 90 differs from the
  last value and is appended to the CSV history.
\<close>

theorem polling_thread_stores_lower_value:
  "csv_rows (fst (update_play_count
       (update_play_count (ex_song0, None) (Some ''100'') ex_t1) (Some ''90'') ex_t3))
     = [(''2024-01-01 10:00:00 IST'', ''100''), (''2024-01-01 11:10:00 IST'', ''90'')]"
  by (simp only: first_poll) (simp add: update_play_count_def poll_song_def ex_clock_gaps ex_clock_texts)

text \<open>
  Claim C2, amended. For \<open>update_song\<close>: when the stored play counts all read as
  integers and never fall (the empty series included), they still do after any sequence
  of fetch results, and a fetched value strictly below the last stored integer value is
  never appended. The polling thread of \<open>app.py\<close> appends every fetched value that
  differs from the last stored one.
\<close>

theorem update_song_values_non_decreasing:
  "(non_decreasing (load_json f) \<longrightarrow> non_decreasing (load_json (run_updates f feed)))
   \<and> (load_json f \<noteq> [] \<and> py_int (play_count (last (load_json f))) = Some v \<and> int c < v
        \<longrightarrow> update_song f (Some c) now_dt = (False, f))
   \<and> (pc \<noteq> [] \<and> song_entries song \<noteq> [] \<and> a_play_count (last (song_entries song)) \<noteq> Txt pc
        \<longrightarrow> csv_rows (poll_song song (Some pc) current_time)
              = csv_rows song @ [(strftime_IST current_time, pc)])"
proof (intro conjI impI)
  assume "non_decreasing (load_json f)"
  then show "non_decreasing (load_json (run_updates f feed))"
    by (rule run_updates_non_decreasing)
next
  assume "load_json f \<noteq> [] \<and> py_int (play_count (last (load_json f))) = Some v \<and> int c < v"
  then show "update_song f (Some c) now_dt = (False, f)"
    by (simp add: update_song_def)
next
  assume "pc \<noteq> [] \<and> song_entries song \<noteq> [] \<and> a_play_count (last (song_entries song)) \<noteq> Txt pc"
  then show "csv_rows (poll_song song (Some pc) current_time)
      = csv_rows song @ [(strftime_IST current_time, pc)]"
    by (simp add: poll_song_def)
qed

theorem update_song_values_non_decreasing_witness:
  "non_decreasing (load_json Missing)
   \<and> non_decreasing (load_json (run_updates Missing [(Some 500, ex_t1), (Some 400, ex_t3), (Some 620, ex_t4)]))
   \<and> load_json (run_updates Missing [(Some 500, ex_t1), (Some 400, ex_t3), (Some 620, ex_t4)])
       = [ex_first, \<lparr>timestamp = ''2024-01-01 12:00:00 IST'', play_count = ''620''\<rparr>]
   \<and> update_song (Stored [ex_first]) (Some 400) ex_t3 = (False, Stored [ex_first])"
proof -
  have h1: "non_decreasing (load_json Missing)"
    by (simp add: load_json_def non_decreasing_def)
  have r: "load_json (run_updates Missing [(Some 500, ex_t1), (Some 400, ex_t3), (Some 620, ex_t4)])
       = [ex_first, \<lparr>timestamp = ''2024-01-01 12:00:00 IST'', play_count = ''620''\<rparr>]"
    by code_simp
  have h2: "load_json (Stored [ex_first]) \<noteq> [] \<and> py_int (play_count (last (load_json (Stored [ex_first])))) = Some 500
      \<and> int 400 < 500"
    by code_simp
  have c1: "non_decreasing (load_json (run_updates Missing [(Some 500, ex_t1), (Some 400, ex_t3), (Some 620, ex_t4)]))"
    using h1 update_song_values_non_decreasing
      [of Missing "[(Some 500, ex_t1), (Some 400, ex_t3), (Some 620, ex_t4)]" 500 400 ex_t3 "[]" ex_song0 ex_t3]
    by blast
  have c2: "update_song (Stored [ex_first]) (Some 400) ex_t3 = (False, Stored [ex_first])"
    using h2 update_song_values_non_decreasing [of "Stored [ex_first]" "[]" 500 400 ex_t3 "[]" ex_song0 ex_t3]
    by blast
  show ?thesis
    using h1 c1 r c2 by blast
qed

section \<open>One sample per calendar hour\<close>

text \<open>
  Claim C3, as stated: on every ingestion path two fetch results of one calendar hour
  never give two stored samples. It fails on the polling thread of \<open>app.py\<close>: polls at
  10:00 and 10:20 with the values 500 and 510 are both appended.
\<close>

theorem polling_thread_two_samples_one_hour:
  "csv_rows (fst (update_play_count
       (update_play_count (ex_song0, None) (Some ''500'') ex_t1) (Some ''510'') ex_t5))
     = [(''2024-01-01 10:00:00 IST'', ''500''), (''2024-01-01 10:20:00 IST'', ''510'')]
   \<and> hour_bucket ex_t1 = hour_bucket ex_t5"
proof -
  have a: "csv_rows (fst (update_play_count
       (update_play_count (ex_song0, None) (Some ''500'') ex_t1) (Some ''510'') ex_t5))
     = [(''2024-01-01 10:00:00 IST'', ''500''), (''2024-01-01 10:20:00 IST'', ''510'')]"
    by (simp only: first_poll) (simp add: update_play_count_def poll_song_def ex_clock_gaps ex_clock_texts)
  have b: "hour_bucket ex_t1 = hour_bucket ex_t5"
    by (simp add: hour_bucket_def ex_t1_def ex_t5_def)
  show ?thesis
    using a b by (rule conjI)
qed

lemma should_append_hourly_after_append:
  assumes "valid_datetime now1" and "1000 \<le> year now1"
  shows "should_append_hourly (data @ [\<lparr>timestamp = strftime_IST now1, play_count = pc\<rparr>]) now2
     = (hour_bucket now2 \<noteq> hour_bucket now1)"
  using safe_parse_ts_strftime [OF assms]
  by (simp add: should_append_hourly_def safe_parse_ts_def hour_bucket_def)

text \<open>
  Claim C3, amended. For \<open>update_song\<close> with a clock that reads a valid date from the
  year 1000 on: of two successive fetch results whose clock readings lie in the same
  calendar hour at most one is stored, whatever the values; and when the readings lie in
  different hours, the first result was stored and the second value is not below the
  first, the second is stored too.
\<close>

theorem update_song_one_sample_per_hour:
  assumes "valid_datetime now1" and "1000 \<le> year now1"
  shows "(hour_bucket now1 = hour_bucket now2
           \<longrightarrow> \<not> (fst (update_song f c1 now1) \<and> fst (update_song (snd (update_song f c1 now1)) c2 now2)))
   \<and> (hour_bucket now1 \<noteq> hour_bucket now2 \<and> fst (update_song f (Some v1) now1) \<and> v1 \<le> v2
           \<longrightarrow> fst (update_song (snd (update_song f (Some v1) now1)) (Some v2) now2))"
proof (intro conjI impI)
  assume same: "hour_bucket now1 = hour_bucket now2"
  show "\<not> (fst (update_song f c1 now1) \<and> fst (update_song (snd (update_song f c1 now1)) c2 now2))"
  proof
    assume both: "fst (update_song f c1 now1) \<and> fst (update_song (snd (update_song f c1 now1)) c2 now2)"
    then obtain c where s: "snd (update_song f c1 now1)
        = Stored (load_json f @ [\<lparr>timestamp = strftime_IST now1, play_count = str_nat c\<rparr>])"
      using update_song_accepted [of f c1 now1] by blast
    have "\<not> should_append_hourly (load_json f @ [\<lparr>timestamp = strftime_IST now1, play_count = str_nat c\<rparr>]) now2"
      using same by (simp add: should_append_hourly_after_append [OF assms])
    then have "\<not> fst (update_song (snd (update_song f c1 now1)) c2 now2)"
      unfolding s by (simp add: update_song_def load_json_def Let_def split: option.split)
    with both show False by simp
  qed
next
  assume a: "hour_bucket now1 \<noteq> hour_bucket now2 \<and> fst (update_song f (Some v1) now1) \<and> v1 \<le> v2"
  then obtain c where c: "Some v1 = Some c" and s: "snd (update_song f (Some v1) now1)
        = Stored (load_json f @ [\<lparr>timestamp = strftime_IST now1, play_count = str_nat c\<rparr>])"
    using update_song_accepted [of f "Some v1" now1] by blast
  have sa: "should_append_hourly (load_json f @ [\<lparr>timestamp = strftime_IST now1, play_count = str_nat v1\<rparr>]) now2"
    using a by (simp add: should_append_hourly_after_append [OF assms] eq_commute)
  show "fst (update_song (snd (update_song f (Some v1) now1)) (Some v2) now2)"
    using c s sa a by (simp add: update_song_def load_json_def Let_def py_int_str_nat)
qed

theorem update_song_one_sample_per_hour_witness:
  "valid_datetime ex_t1 \<and> 1000 \<le> year ex_t1
   \<and> hour_bucket ex_t1 = hour_bucket ex_t5
   \<and> fst (update_song Missing (Some 500) ex_t1)
   \<and> \<not> fst (update_song (snd (update_song Missing (Some 500) ex_t1)) (Some 510) ex_t5)
   \<and> hour_bucket ex_t1 \<noteq> hour_bucket ex_t3
   \<and> fst (update_song (snd (update_song Missing (Some 500) ex_t1)) (Some 620) ex_t3)"
proof -
  have h1: "valid_datetime ex_t1"
    by (simp add: valid_datetime_def ex_t1_def days_in_month_def)
  have h2: "1000 \<le> year ex_t1" by (simp add: ex_t1_def)
  have h3: "hour_bucket ex_t1 = hour_bucket ex_t5"
    by (simp add: hour_bucket_def ex_t1_def ex_t5_def)
  have h4: "hour_bucket ex_t1 \<noteq> hour_bucket ex_t3"
    by (simp add: hour_bucket_def ex_t1_def ex_t3_def)
  have h5: "fst (update_song Missing (Some 500) ex_t1)"
    by (simp add: update_song_def load_json_def should_append_hourly_def)
  have c1: "\<not> fst (update_song (snd (update_song Missing (Some 500) ex_t1)) (Some 510) ex_t5)"
    using h3 h5 update_song_one_sample_per_hour [OF h1 h2, of ex_t5 Missing "Some 500" "Some 510" 500 500]
    by blast
  have le: "(500::nat) \<le> 620" by simp
  have c2: "fst (update_song (snd (update_song Missing (Some 500) ex_t1)) (Some 620) ex_t3)"
    using h4 h5 le update_song_one_sample_per_hour [OF h1 h2, of ex_t3 Missing "Some 500" "Some 620" 500 620]
    by blast
  show ?thesis
    using h1 h2 h3 h4 h5 c1 c2 by blast
qed

section \<open>The nearest reference sample\<close>

lemma nearest_loop_running:
  "nearest_loop D es (Some c) (Some m) = Some r \<Longrightarrow>
     (r = c \<and> (\<forall>e\<in>set es. \<forall>d. D e = Some d \<longrightarrow> m \<le> d))
     \<or> (\<exists>pre post d. es = pre @ r # post \<and> D r = Some d \<and> d < m
           \<and> (\<forall>e\<in>set pre. \<forall>d'. D e = Some d' \<longrightarrow> d < d')
           \<and> (\<forall>e\<in>set post. \<forall>d'. D e = Some d' \<longrightarrow> d \<le> d'))"
proof (induction es arbitrary: c m)
  case Nil
  then show ?case by simp
next
  case (Cons e es)
  show ?case
  proof (cases "D e")
    case None
    with Cons.prems have "nearest_loop D es (Some c) (Some m) = Some r"
      by simp
    from Cons.IH [OF this] show ?thesis
    proof
      assume "r = c \<and> (\<forall>e\<in>set es. \<forall>d. D e = Some d \<longrightarrow> m \<le> d)"
      with None show ?thesis by auto
    next
      assume "\<exists>pre post d. es = pre @ r # post \<and> D r = Some d \<and> d < m
           \<and> (\<forall>e\<in>set pre. \<forall>d'. D e = Some d' \<longrightarrow> d < d')
           \<and> (\<forall>e\<in>set post. \<forall>d'. D e = Some d' \<longrightarrow> d \<le> d')"
      then obtain pre post d where p: "es = pre @ r # post" "D r = Some d" "d < m"
        "\<forall>e\<in>set pre. \<forall>d'. D e = Some d' \<longrightarrow> d < d'"
        "\<forall>e\<in>set post. \<forall>d'. D e = Some d' \<longrightarrow> d \<le> d'"
        by blast
      have "e # es = (e # pre) @ r # post" using p(1) by simp
      moreover have "\<forall>x\<in>set (e # pre). \<forall>d'. D x = Some d' \<longrightarrow> d < d'"
        using p(4) None by simp
      ultimately show ?thesis using p(2,3,5) by blast
    qed
  next
    case (Some d0)
    show ?thesis
    proof (cases "d0 < m")
      case True
      with Some Cons.prems have "nearest_loop D es (Some e) (Some d0) = Some r"
        by simp
      from Cons.IH [OF this] show ?thesis
      proof
        assume a: "r = e \<and> (\<forall>x\<in>set es. \<forall>d. D x = Some d \<longrightarrow> d0 \<le> d)"
        have "e # es = [] @ r # es" using a by simp
        moreover have "D r = Some d0" using a Some by simp
        moreover have "\<forall>x\<in>set []. \<forall>d'. D x = Some d' \<longrightarrow> d0 < d'" by simp
        ultimately show ?thesis using a True by blast
      next
        assume "\<exists>pre post d. es = pre @ r # post \<and> D r = Some d \<and> d < d0
           \<and> (\<forall>e\<in>set pre. \<forall>d'. D e = Some d' \<longrightarrow> d < d')
           \<and> (\<forall>e\<in>set post. \<forall>d'. D e = Some d' \<longrightarrow> d \<le> d')"
        then obtain pre post d where p: "es = pre @ r # post" "D r = Some d" "d < d0"
          "\<forall>e\<in>set pre. \<forall>d'. D e = Some d' \<longrightarrow> d < d'"
          "\<forall>e\<in>set post. \<forall>d'. D e = Some d' \<longrightarrow> d \<le> d'"
          by blast
        have "e # es = (e # pre) @ r # post" using p(1) by simp
        moreover have "\<forall>x\<in>set (e # pre). \<forall>d'. D x = Some d' \<longrightarrow> d < d'"
          using p(3,4) Some by simp
        moreover have "d < m" using p(3) True by simp
        ultimately show ?thesis using p(2,5) by blast
      qed
    next
      case False
      with Some Cons.prems have "nearest_loop D es (Some c) (Some m) = Some r"
        by simp
      from Cons.IH [OF this] show ?thesis
      proof
        assume "r = c \<and> (\<forall>e\<in>set es. \<forall>d. D e = Some d \<longrightarrow> m \<le> d)"
        with Some False show ?thesis by auto
      next
        assume "\<exists>pre post d. es = pre @ r # post \<and> D r = Some d \<and> d < m
           \<and> (\<forall>e\<in>set pre. \<forall>d'. D e = Some d' \<longrightarrow> d < d')
           \<and> (\<forall>e\<in>set post. \<forall>d'. D e = Some d' \<longrightarrow> d \<le> d')"
        then obtain pre post d where p: "es = pre @ r # post" "D r = Some d" "d < m"
          "\<forall>e\<in>set pre. \<forall>d'. D e = Some d' \<longrightarrow> d < d'"
          "\<forall>e\<in>set post. \<forall>d'. D e = Some d' \<longrightarrow> d \<le> d'"
          by blast
        have "e # es = (e # pre) @ r # post" using p(1) by simp
        moreover have "\<forall>x\<in>set (e # pre). \<forall>d'. D x = Some d' \<longrightarrow> d < d'"
          using p(3,4) Some False by simp
        ultimately show ?thesis using p(2,3,5) by blast
      qed
    qed
  qed
qed

lemma nearest_loop_running_Some: "nearest_loop D es (Some c) (Some m) \<noteq> None"
  by (induction es arbitrary: c m) (auto split: option.split)

lemma nearest_loop_None_iff:
  "nearest_loop D es None None = None \<longleftrightarrow> (\<forall>e\<in>set es. D e = None)"
  by (induction es) (auto simp: nearest_loop_running_Some split: option.split)

lemma nearest_loop_first_nearest:
  "nearest_loop D es None None = Some r \<Longrightarrow>
     \<exists>pre post d. es = pre @ r # post \<and> D r = Some d
       \<and> (\<forall>e\<in>set pre. \<forall>d'. D e = Some d' \<longrightarrow> d < d')
       \<and> (\<forall>e\<in>set post. \<forall>d'. D e = Some d' \<longrightarrow> d \<le> d')"
proof (induction es)
  case Nil
  then show ?case by simp
next
  case (Cons e es)
  show ?case
  proof (cases "D e")
    case None
    with Cons.prems have "nearest_loop D es None None = Some r"
      by simp
    from Cons.IH [OF this] obtain pre post d where p: "es = pre @ r # post" "D r = Some d"
      "\<forall>e\<in>set pre. \<forall>d'. D e = Some d' \<longrightarrow> d < d'"
      "\<forall>e\<in>set post. \<forall>d'. D e = Some d' \<longrightarrow> d \<le> d'"
      by blast
    have "e # es = (e # pre) @ r # post" using p(1) by simp
    moreover have "\<forall>x\<in>set (e # pre). \<forall>d'. D x = Some d' \<longrightarrow> d < d'"
      using p(3) None by simp
    ultimately show ?thesis using p(2,4) by blast
  next
    case (Some d0)
    with Cons.prems have "nearest_loop D es (Some e) (Some d0) = Some r"
      by simp
    from nearest_loop_running [OF this] show ?thesis
    proof
      assume a: "r = e \<and> (\<forall>x\<in>set es. \<forall>d. D x = Some d \<longrightarrow> d0 \<le> d)"
      have "e # es = [] @ r # es" using a by simp
      moreover have "D r = Some d0" using a Some by simp
      moreover have "\<forall>x\<in>set []. \<forall>d'. D x = Some d' \<longrightarrow> d0 < d'" by simp
      ultimately show ?thesis using a by blast
    next
      assume "\<exists>pre post d. es = pre @ r # post \<and> D r = Some d \<and> d < d0
           \<and> (\<forall>e\<in>set pre. \<forall>d'. D e = Some d' \<longrightarrow> d < d')
           \<and> (\<forall>e\<in>set post. \<forall>d'. D e = Some d' \<longrightarrow> d \<le> d')"
      then obtain pre post d where p: "es = pre @ r # post" "D r = Some d" "d < d0"
        "\<forall>e\<in>set pre. \<forall>d'. D e = Some d' \<longrightarrow> d < d'"
        "\<forall>e\<in>set post. \<forall>d'. D e = Some d' \<longrightarrow> d \<le> d'"
        by blast
      have "e # es = (e # pre) @ r # post" using p(1) by simp
      moreover have "\<forall>x\<in>set (e # pre). \<forall>d'. D x = Some d' \<longrightarrow> d < d'"
        using p(3,4) Some by simp
      ultimately show ?thesis using p(2,5) by blast
    qed
  qed
qed

lemma find_loop_nearest:
  assumes "\<forall>e\<in>set es. \<forall>t. safe_parse_ts (timestamp e) = Some t \<longrightarrow> localize t = Inr off"
  shows "find_loop localize total_seconds es (T - off * 1000000) closest min_diff
     = Inr (nearest_loop (float_distance total_seconds T) es closest min_diff)"
  using assms
proof (induction es arbitrary: closest min_diff)
  case Nil
  then show ?case by simp
next
  case (Cons e es)
  have rest: "\<forall>e\<in>set es. \<forall>t. safe_parse_ts (timestamp e) = Some t \<longrightarrow> localize t = Inr off"
    using Cons.prems by simp
  note IH = Cons.IH [OF rest]
  show ?case
  proof (cases "safe_parse_ts (timestamp e)")
    case None
    then show ?thesis by (simp add: IH float_distance_def)
  next
    case (Some t)
    have l: "localize t = Inr off" using Cons.prems Some by simp
    have d: "dt_micros t - off * 1000000 - (T - off * 1000000) = dt_micros t - T" by simp
    show ?thesis using Some l by (simp add: IH float_distance_def d Let_def)
  qed
qed

lemma float_distance_None: "float_distance ts T e = None \<longleftrightarrow> safe_parse_ts (timestamp e) = None"
  by (simp add: float_distance_def split: option.split)

lemma ex_target_hour: "target_time ex_now6 1 = Inr (dt_micros ex_t3)"
  by (simp add: target_time_def timedelta_hours_def min_micros_def max_micros_def
      ex_now6_def ex_t6_def ex_t3_def dt_micros_def dt_seconds_def ymd2ord_def
      days_before_year_def days_before_month_def days_in_month_def is_leap_def Let_def)

lemma ex_four_distances:
  "ts_distance (dt_micros ex_t3) \<lparr>timestamp = ''2024-01-01 10:00:00 IST'', play_count = ''1000''\<rparr>
     = Some 4200000000"
  "ts_distance (dt_micros ex_t3) \<lparr>timestamp = ''2024-01-01 10:30:00 IST'', play_count = ''1100''\<rparr>
     = Some 2400000000"
  "ts_distance (dt_micros ex_t3) \<lparr>timestamp = ''2024-01-01 11:05:00 IST'', play_count = ''1200''\<rparr>
     = Some 300000000"
  "ts_distance (dt_micros ex_t3) \<lparr>timestamp = ''2024-01-01 12:10:00 IST'', play_count = ''1500''\<rparr>
     = Some 3600000000"
  by code_simp+

lemma ex_four_parsed:
  "safe_parse_ts ''2024-01-01 10:00:00 IST'' = Some ex_t1"
  "safe_parse_ts ''2024-01-01 10:30:00 IST''
     = Some \<lparr>year = 2024, month = 1, day = 1, hour = 10, minute = 30, second = 0, microsecond = 0\<rparr>"
  "safe_parse_ts ''2024-01-01 11:05:00 IST''
     = Some \<lparr>year = 2024, month = 1, day = 1, hour = 11, minute = 5, second = 0, microsecond = 0\<rparr>"
  "safe_parse_ts ''2024-01-01 12:10:00 IST'' = Some ex_t6"
  by code_simp+

lemma ex_four_micros:
  "dt_micros ex_t1 = 63839786400000000"
  "dt_micros \<lparr>year = 2024, month = 1, day = 1, hour = 10, minute = 30, second = 0, microsecond = 0\<rparr>
     = 63839788200000000"
  "dt_micros \<lparr>year = 2024, month = 1, day = 1, hour = 11, minute = 5, second = 0, microsecond = 0\<rparr>
     = 63839790300000000"
  "dt_micros ex_t6 = 63839794200000000"
  "dt_micros ex_t3 = 63839790600000000"
  by code_simp+

lemma exact_seconds_order: "(\<bar>exact_seconds a\<bar> < \<bar>exact_seconds b\<bar>) = (\<bar>a\<bar> < \<bar>b\<bar>)"
proof -
  have "(\<bar>exact_seconds a\<bar> < \<bar>exact_seconds b\<bar>) = (real_of_int \<bar>a\<bar> < real_of_int \<bar>b\<bar>)"
    by (simp add: exact_seconds_def)
  thus ?thesis by (simp only: of_int_less_iff)
qed

text \<open>
  Claim C6, as stated: for every series and look-back duration \<open>find_reference\<close> returns
  the nearest stored entry. It fails for a look-back of \<open>10 ^ 8\<close> hours from a clock
  reading in 2024: the target time would lie before the year 1, and \<open>find_reference\<close>
  raises \<open>OverflowError\<close> on a series of four well-formed samples.
\<close>

theorem find_reference_look_back_overflow:
  "find_reference ist_fixed exact_seconds ex_four ex_now6 100000000 = Inl OverflowError"
  by (simp add: find_reference_def target_time_def timedelta_hours_def min_micros_def max_micros_def
      ex_now6_def ex_t6_def dt_micros_def dt_seconds_def ymd2ord_def days_before_year_def
      days_before_month_def days_in_month_def is_leap_def Let_def)

text \<open>
  Claim C6, amended. Suppose that the target time \<open>now - hours_back\<close> is a representable
  datetime, that every stored timestamp that parses is localized at the UTC offset of
  the clock reading (as pytz does for dates from 1945-10-15 on and a present-day clock),
  that every such timestamp is less than \<open>2 ^ 33\<close> seconds away from the target, and
  that on differences below \<open>2 ^ 33\<close> seconds the float seconds order absolute
  differences as the exact microseconds do (as IEEE doubles do). Then \<open>find_reference\<close>
  raises nothing; it returns nothing exactly when no entry has a timestamp that parses;
  otherwise it returns a stored entry whose timestamp parses and whose distance to the
  target is strictly smaller than that of every parseable entry stored before it and
  not greater than that of every parseable entry stored after it: the nearest entry, the
  first-encountered one among equally near ones.
\<close>

theorem find_reference_first_nearest:
  assumes rng: "target_time now hours_back = Inr T"
    and loc: "\<forall>e\<in>set es. \<forall>t. safe_parse_ts (timestamp e) = Some t
                \<longrightarrow> localize t = Inr (utc_offset now)"
    and near: "\<forall>e\<in>set es. \<forall>d. ts_distance T e = Some d \<longrightarrow> d < 8589934592000000"
    and fl: "\<forall>a b. \<bar>a\<bar> < 8589934592000000 \<and> \<bar>b\<bar> < 8589934592000000
                \<longrightarrow> (\<bar>total_seconds a\<bar> < \<bar>total_seconds b\<bar>) = (\<bar>a\<bar> < \<bar>b\<bar>)"
  shows "\<exists>res. find_reference localize total_seconds es now hours_back = Inr res
     \<and> (res = None \<longleftrightarrow> (\<forall>e\<in>set es. safe_parse_ts (timestamp e) = None))
     \<and> (\<forall>r. res = Some r \<longrightarrow>
          (\<exists>pre post d. es = pre @ r # post \<and> ts_distance T r = Some d
             \<and> (\<forall>e\<in>set pre. \<forall>d'. ts_distance T e = Some d' \<longrightarrow> d < d')
             \<and> (\<forall>e\<in>set post. \<forall>d'. ts_distance T e = Some d' \<longrightarrow> d \<le> d')))"
proof -
  define D where "D = float_distance total_seconds T"
  define res where "res = nearest_loop D es None None"
  have run: "find_reference localize total_seconds es now hours_back = Inr res"
    unfolding find_reference_def res_def D_def
    by (simp add: rng find_loop_nearest [OF loc])
  have none: "res = None \<longleftrightarrow> (\<forall>e\<in>set es. safe_parse_ts (timestamp e) = None)"
    unfolding res_def D_def by (simp add: nearest_loop_None_iff float_distance_None)
  have some: "\<exists>pre post d. es = pre @ r # post \<and> ts_distance T r = Some d
             \<and> (\<forall>e\<in>set pre. \<forall>d'. ts_distance T e = Some d' \<longrightarrow> d < d')
             \<and> (\<forall>e\<in>set post. \<forall>d'. ts_distance T e = Some d' \<longrightarrow> d \<le> d')"
    if r: "res = Some r" for r
  proof -
    from nearest_loop_first_nearest [of D es r] r obtain pre post f
      where p: "es = pre @ r # post" "D r = Some f"
        "\<forall>e\<in>set pre. \<forall>f'. D e = Some f' \<longrightarrow> f < f'"
        "\<forall>e\<in>set post. \<forall>f'. D e = Some f' \<longrightarrow> f \<le> f'"
      unfolding res_def by blast
    from p(2) obtain t where t: "safe_parse_ts (timestamp r) = Some t"
      and f: "f = \<bar>total_seconds (dt_micros t - T)\<bar>"
      unfolding D_def float_distance_def by (auto split: option.splits)
    define d where "d = \<bar>dt_micros t - T\<bar>"
    have dr: "ts_distance T r = Some d" by (simp add: ts_distance_def t d_def)
    have "r \<in> set es" using p(1) by simp
    with near dr have db: "d < 8589934592000000" by blast
    have cmp: "(f < \<bar>total_seconds (dt_micros t' - T)\<bar>) = (d < \<bar>dt_micros t' - T\<bar>)"
      and cmp': "(\<bar>total_seconds (dt_micros t' - T)\<bar> < f) = (\<bar>dt_micros t' - T\<bar> < d)"
      if "\<bar>dt_micros t' - T\<bar> < 8589934592000000" for t'
      using fl that db unfolding f d_def by blast+
    have pre: "d < d'" if e: "e \<in> set pre" and de: "ts_distance T e = Some d'" for e d'
    proof -
      from de obtain t' where t': "safe_parse_ts (timestamp e) = Some t'"
        and d': "d' = \<bar>dt_micros t' - T\<bar>"
        unfolding ts_distance_def by (auto split: option.splits)
      have "e \<in> set es" using e p(1) by simp
      with near de have b: "\<bar>dt_micros t' - T\<bar> < 8589934592000000" unfolding d' by blast
      have "D e = Some \<bar>total_seconds (dt_micros t' - T)\<bar>"
        by (simp add: D_def float_distance_def t')
      with p(3) e have "f < \<bar>total_seconds (dt_micros t' - T)\<bar>" by blast
      with cmp [OF b] show ?thesis by (simp add: d')
    qed
    have post: "d \<le> d'" if e: "e \<in> set post" and de: "ts_distance T e = Some d'" for e d'
    proof -
      from de obtain t' where t': "safe_parse_ts (timestamp e) = Some t'"
        and d': "d' = \<bar>dt_micros t' - T\<bar>"
        unfolding ts_distance_def by (auto split: option.splits)
      have "e \<in> set es" using e p(1) by simp
      with near de have b: "\<bar>dt_micros t' - T\<bar> < 8589934592000000" unfolding d' by blast
      have "D e = Some \<bar>total_seconds (dt_micros t' - T)\<bar>"
        by (simp add: D_def float_distance_def t')
      with p(4) e have "f \<le> \<bar>total_seconds (dt_micros t' - T)\<bar>" by blast
      hence "\<not> \<bar>total_seconds (dt_micros t' - T)\<bar> < f" by simp
      with cmp' [OF b] show ?thesis by (simp add: d')
    qed
    show ?thesis using p(1) dr pre post by blast
  qed
  show ?thesis using run none some by blast
qed

theorem find_reference_first_nearest_witness:
  "target_time ex_now6 1 = Inr (dt_micros ex_t3)
   \<and> find_reference ist_fixed exact_seconds ex_four ex_now6 1
       = Inr (Some \<lparr>timestamp = ''2024-01-01 11:05:00 IST'', play_count = ''1200''\<rparr>)
   \<and> (\<exists>pre post d. ex_four = pre @ \<lparr>timestamp = ''2024-01-01 11:05:00 IST'', play_count = ''1200''\<rparr> # post
         \<and> ts_distance (dt_micros ex_t3)
              \<lparr>timestamp = ''2024-01-01 11:05:00 IST'', play_count = ''1200''\<rparr> = Some d
         \<and> (\<forall>e\<in>set pre. \<forall>d'. ts_distance (dt_micros ex_t3) e = Some d' \<longrightarrow> d < d')
         \<and> (\<forall>e\<in>set post. \<forall>d'. ts_distance (dt_micros ex_t3) e = Some d' \<longrightarrow> d \<le> d'))"
proof -
  have loc: "\<forall>e\<in>set ex_four. \<forall>t. safe_parse_ts (timestamp e) = Some t
      \<longrightarrow> ist_fixed t = Inr (utc_offset ex_now6)"
    by (simp add: ist_fixed_def ex_now6_def)
  have near: "\<forall>e\<in>set ex_four. \<forall>d. ts_distance (dt_micros ex_t3) e = Some d
      \<longrightarrow> d < 8589934592000000"
    by (simp add: ex_four_def ex_four_distances)
  have fl: "\<forall>a b. \<bar>a\<bar> < 8589934592000000 \<and> \<bar>b\<bar> < 8589934592000000
      \<longrightarrow> (\<bar>exact_seconds a\<bar> < \<bar>exact_seconds b\<bar>) = (\<bar>a\<bar> < \<bar>b\<bar>)"
    by (simp add: exact_seconds_order)
  have run: "find_reference ist_fixed exact_seconds ex_four ex_now6 1
      = Inr (Some \<lparr>timestamp = ''2024-01-01 11:05:00 IST'', play_count = ''1200''\<rparr>)"
    apply (simp only: find_reference_def ex_target_hour sum.case)
    apply (simp add: ex_four_def ex_four_parsed ex_four_micros ist_fixed_def exact_seconds_def
        ex_now6_def Let_def del: One_nat_def)
    done
  show ?thesis
    using ex_target_hour run find_reference_first_nearest [OF ex_target_hour loc near fl]
    by auto
qed

section \<open>The gap filter\<close>

lemma ts_key_parsed:
  "strptime (clean_ts (timestamp e)) = Some dt \<Longrightarrow> parse_ts (timestamp e) = Inr dt \<and> ts_key e = dt_seconds dt"
  by (simp add: parse_ts_def ts_key_def)

lemma gap_loop_kept:
  assumes "\<forall>e\<in>set es. strptime (clean_ts (timestamp e)) \<noteq> None"
    and "last_key = map_option dt_seconds last_kept_time"
  shows "gap_loop es gap_minutes filtered last_kept_time
     = Inr (filtered @ kept (60 * (gap_minutes - 5)) last_key es)"
  using assms
proof (induction es arbitrary: filtered last_kept_time last_key)
  case Nil
  then show ?case by simp
next
  case (Cons e es)
  from Cons.prems(1) obtain dt where dt: "strptime (clean_ts (timestamp e)) = Some dt"
    by auto
  note p = ts_key_parsed [OF dt]
  have rest: "\<forall>e\<in>set es. strptime (clean_ts (timestamp e)) \<noteq> None"
    using Cons.prems(1) by simp
  show ?case
  proof (cases last_kept_time)
    case None
    then show ?thesis
      using p Cons.prems(2) Cons.IH [OF rest, of "Some (ts_key e)" "Some dt" "filtered @ [e]"]
      by simp
  next
    case (Some lk)
    show ?thesis
    proof (cases "dt_seconds dt - dt_seconds lk \<ge> 60 * (gap_minutes - 5)")
      case True
      then show ?thesis
        using p Some Cons.prems(2) Cons.IH [OF rest, of "Some (ts_key e)" "Some dt" "filtered @ [e]"]
        by simp
    next
      case False
      then show ?thesis
        using p Some Cons.prems(2) Cons.IH [OF rest, of last_key last_kept_time filtered]
        by simp
    qed
  qed
qed

lemma kept_subset: "set (kept th lk es) \<subseteq> set es"
  by (induction es arbitrary: lk) auto

lemma kept_idem: "kept th lk (kept th lk es) = kept th lk es"
  by (induction es arbitrary: lk) auto

lemma kept_snoc:
  "kept th lk (es @ [l]) =
     kept th lk es @
       (if (case (if kept th lk es = [] then lk else Some (ts_key (last (kept th lk es)))) of
              None \<Rightarrow> True
            | Some k \<Rightarrow> ts_key l - k \<ge> th)
        then [l] else [])"
  by (induction es arbitrary: lk) auto

lemma sorted_kept: "sorted (map ts_order es) \<Longrightarrow> sorted (map ts_order (kept th lk es))"
proof (induction es arbitrary: lk)
  case Nil
  then show ?case by simp
next
  case (Cons e es)
  have "ts_order e \<le> ts_order x" if "x \<in> set (kept th (Some (ts_key e)) es)" for x
    using Cons.prems that kept_subset [of th "Some (ts_key e)" es] by auto
  then show ?case using Cons by auto
qed

lemma sorted_le_last:
  "sorted (map f xs) \<Longrightarrow> x \<in> set xs \<Longrightarrow> f x \<le> (f (last xs) :: 'a :: linorder)"
  by (induction xs) auto

lemma filter_hour_gaps_parsed:
  assumes "es \<noteq> []" and "\<forall>e\<in>set es. strptime (clean_ts (timestamp e)) \<noteq> None"
  shows "filter_hour_gaps es gap_minutes
     = Inr (force_last (sort_key ts_order es) (kept (60 * (gap_minutes - 5)) None (sort_key ts_order es)))"
proof -
  have ne: "\<not> list_ex (\<lambda>e. strptime (clean_ts (timestamp e)) = None) es"
    using assms(2) by (simp add: list_ex_iff)
  have "\<forall>e\<in>set (sort_key ts_order es). strptime (clean_ts (timestamp e)) \<noteq> None"
    using assms(2) by simp
  then have "gap_loop (sort_key ts_order es) gap_minutes [] None
      = Inr ([] @ kept (60 * (gap_minutes - 5)) None (sort_key ts_order es))"
    by (rule gap_loop_kept) simp
  then show ?thesis
    using assms(1) ne by (simp add: filter_hour_gaps_def force_last_def Let_def)
qed

lemma kept_first: "es \<noteq> [] \<Longrightarrow> kept th None es \<noteq> [] \<and> hd (kept th None es) = hd es"
  by (cases es) simp_all

lemma force_last_fixed:
  assumes xs: "xs \<noteq> []" and so: "sorted (map ts_order xs)"
    and ks: "ks = kept th None xs" and out: "out = force_last xs ks"
  shows "out \<noteq> [] \<and> set out \<subseteq> set xs \<and> sort_key ts_order out = out
    \<and> force_last out (kept th None out) = out"
proof -
  have kne: "ks \<noteq> []" using kept_first [OF xs] ks by simp
  have ksub: "set ks \<subseteq> set xs" using kept_subset ks by simp
  have kso: "sorted (map ts_order ks)" using sorted_kept [OF so] ks by simp
  have kid: "kept th None ks = ks" using kept_idem ks by simp
  show ?thesis
  proof (cases "timestamp (last ks) \<noteq> timestamp (last xs)")
    case False
    then have o: "out = ks" using out by (simp add: force_last_def)
    have "sort_key ts_order ks = ks" using kso by (rule sort_key_id_if_sorted)
    moreover have "force_last ks (kept th None ks) = ks"
      by (simp add: kid force_last_def)
    ultimately show ?thesis using o kne ksub by simp
  next
    case True
    then have o: "out = ks @ [last xs]" using out kne by (simp add: force_last_def)
    have "ts_order x \<le> ts_order (last xs)" if "x \<in> set ks" for x
      using sorted_le_last [OF so] ksub that by blast
    then have "sorted (map ts_order (ks @ [last xs]))"
      using kso by (auto simp: sorted_append)
    then have sid: "sort_key ts_order (ks @ [last xs]) = ks @ [last xs]"
      by (rule sort_key_id_if_sorted)
    have sub: "set (ks @ [last xs]) \<subseteq> set xs" using ksub xs by simp
    have sc: "kept th None (ks @ [last xs])
        = ks @ (if ts_key (last xs) - ts_key (last ks) \<ge> th then [last xs] else [])"
      using kne by (simp add: kept_snoc kid)
    have "force_last (ks @ [last xs]) (kept th None (ks @ [last xs])) = ks @ [last xs]"
      using True kne by (simp add: sc force_last_def)
    then show ?thesis using o sid sub by simp
  qed
qed

lemma filter_hour_gaps_endpoints:
  assumes "es \<noteq> []" and "\<forall>e\<in>set es. strptime (clean_ts (timestamp e)) \<noteq> None"
  shows "\<exists>out. filter_hour_gaps es gap_minutes = Inr out \<and> out \<noteq> []
    \<and> hd out = hd (sort_key ts_order es)
    \<and> timestamp (last out) = timestamp (last (sort_key ts_order es))"
proof -
  define xs where "xs = sort_key ts_order es"
  define ks where "ks = kept (60 * (gap_minutes - 5)) None xs"
  have xne: "xs \<noteq> []" using assms(1) unfolding xs_def by (metis length_sort length_0_conv)
  have k: "ks \<noteq> []" "hd ks = hd xs" using kept_first [OF xne] ks_def by simp_all
  have "force_last xs ks \<noteq> [] \<and> hd (force_last xs ks) = hd xs
      \<and> timestamp (last (force_last xs ks)) = timestamp (last xs)"
    using k by (simp add: force_last_def)
  then show ?thesis
    using filter_hour_gaps_parsed [OF assms, of gap_minutes] unfolding xs_def ks_def by simp
qed

text \<open>
  Claim C4, at the input the code misses. The claim says that the final sample of the
  sorted input, when the scan did not keep it, is appended, so that the output holds the
  newest sample. For two rows with the same timestamp the scan keeps the first, and the
  final step, which compares timestamp texts, appends nothing: the newest row (105
  plays) is not in the output. \<open>filter_hour_gaps_endpoints\<close> above is what the code does
  guarantee: the output starts with the first sorted sample and ends with a sample that
  carries the newest timestamp text.
\<close>

theorem filter_hour_gaps_drops_newest_duplicate:
  "filter_hour_gaps ex_dup 60 = Inr [\<lparr>timestamp = ''2024-01-01 10:00:00 IST'', play_count = ''100''\<rparr>]
   \<and> last (sort_key ts_order ex_dup) = \<lparr>timestamp = ''2024-01-01 10:00:00 IST'', play_count = ''105''\<rparr>
   \<and> \<lparr>timestamp = ''2024-01-01 10:00:00 IST'', play_count = ''105''\<rparr>
        \<notin> set [\<lparr>timestamp = ''2024-01-01 10:00:00 IST'', play_count = ''100''\<rparr>]"
proof -
  have a: "filter_hour_gaps ex_dup 60
      = Inr [\<lparr>timestamp = ''2024-01-01 10:00:00 IST'', play_count = ''100''\<rparr>]"
    by code_simp
  have b: "last (sort_key ts_order ex_dup)
      = \<lparr>timestamp = ''2024-01-01 10:00:00 IST'', play_count = ''105''\<rparr>"
    by code_simp
  show ?thesis
    using a b by simp
qed

text \<open>
  Claim C5. For every series whose timestamps all parse, \<open>filter_hour_gaps\<close> returns a
  series, and applied to that series it returns it unchanged.
\<close>

theorem filter_hour_gaps_idempotent:
  assumes "\<forall>e\<in>set es. strptime (clean_ts (timestamp e)) \<noteq> None"
  shows "\<exists>out. filter_hour_gaps es gap_minutes = Inr out \<and> filter_hour_gaps out gap_minutes = Inr out"
proof (cases "es = []")
  case True
  then show ?thesis by (simp add: filter_hour_gaps_def)
next
  case False
  define xs where "xs = sort_key ts_order es"
  define ks where "ks = kept (60 * (gap_minutes - 5)) None xs"
  define out where "out = force_last xs ks"
  have xne: "xs \<noteq> []" using False unfolding xs_def by (metis length_sort length_0_conv)
  have so: "sorted (map ts_order xs)" unfolding xs_def by (rule sorted_sort_key)
  have first: "filter_hour_gaps es gap_minutes = Inr out"
    unfolding out_def ks_def xs_def by (rule filter_hour_gaps_parsed [OF False assms])
  from force_last_fixed [OF xne so ks_def out_def]
  have one: "out \<noteq> []" and sub: "set out \<subseteq> set xs" and sid: "sort_key ts_order out = out"
    and fixed: "force_last out (kept (60 * (gap_minutes - 5)) None out) = out"
    by simp_all
  have "\<forall>e\<in>set out. strptime (clean_ts (timestamp e)) \<noteq> None"
    using sub assms unfolding xs_def by auto
  from filter_hour_gaps_parsed [OF one this, of gap_minutes]
  have "filter_hour_gaps out gap_minutes = Inr out"
    by (simp only: sid fixed)
  with first show ?thesis by blast
qed

theorem filter_hour_gaps_idempotent_witness:
  "filter_hour_gaps ex_dense 60
     = Inr [\<lparr>timestamp = ''2024-01-01 10:00:00 IST'', play_count = ''1000''\<rparr>,
            \<lparr>timestamp = ''2024-01-01 11:05:00 IST'', play_count = ''1200''\<rparr>,
            \<lparr>timestamp = ''2024-01-01 11:20:00 IST'', play_count = ''1250''\<rparr>]
   \<and> (\<exists>out. filter_hour_gaps ex_dense 60 = Inr out \<and> filter_hour_gaps out 60 = Inr out)"
proof -
  have p: "list_all (\<lambda>e. strptime (clean_ts (timestamp e)) \<noteq> None) ex_dense"
    by code_simp
  then have h: "\<forall>e\<in>set ex_dense. strptime (clean_ts (timestamp e)) \<noteq> None"
    by (simp add: list_all_iff)
  have v: "filter_hour_gaps ex_dense 60
     = Inr [\<lparr>timestamp = ''2024-01-01 10:00:00 IST'', play_count = ''1000''\<rparr>,
            \<lparr>timestamp = ''2024-01-01 11:05:00 IST'', play_count = ''1200''\<rparr>,
            \<lparr>timestamp = ''2024-01-01 11:20:00 IST'', play_count = ''1250''\<rparr>]"
    by code_simp
  show ?thesis
    using v filter_hour_gaps_idempotent [OF h, of 60] by blast
qed

end
